theory Spec2Isabelle
  imports Complex_Main "HOL-Library.List_Lexorder" "HOL-Library.Multiset"
begin

section \<open>Python strings and values\<close>

text \<open>
  A Python \<^verbatim>\<open>str\<close> is a sequence of Unicode code points, and \<^verbatim>\<open>len\<close> counts code
  points. A code point is a natural number here (Python keeps it below \<^verbatim>\<open>0x110000\<close>;
  nothing below depends on that bound), so the ellipsis \<^verbatim>\<open>U+2026\<close> is one element.
  Strings compare as Python compares them: lexicographically by code point.
\<close>

type_synonym ustring = "nat list"

text \<open>An ASCII literal of the source, as code points.\<close>

definition ascii :: "string \<Rightarrow> ustring" where
  "ascii s = map of_char s"

definition ellipsis :: nat where
  "ellipsis = 8230"

text \<open>
  \<^verbatim>\<open>str.isspace\<close> of one character, which is what \<^verbatim>\<open>str.strip()\<close> without argument
  removes: the code points CPython lists as whitespace.
\<close>

definition is_space :: "nat \<Rightarrow> bool" where
  "is_space c = (c \<in> set [9, 10, 11, 12, 13, 28, 29, 30, 31, 32, 133, 160, 5760,
     8192, 8193, 8194, 8195, 8196, 8197, 8198, 8199, 8200, 8201, 8202,
     8232, 8233, 8239, 8287, 12288])"

definition strip :: "ustring \<Rightarrow> ustring" where
  "strip s = rev (dropWhile is_space (rev (dropWhile is_space s)))"

text \<open>
  A cell of a fetched row. The driver may hand back any Python object; the handlers only
  ever test a cell against \<^verbatim>\<open>None\<close> and take its \<^verbatim>\<open>str()\<close>. \<open>PObj t\<close> stands for any
  object other than \<^verbatim>\<open>None\<close>, a string, an integer or a boolean (a float, a Decimal, a
  date, bytes ...), given by the text \<^verbatim>\<open>str()\<close> returns for it.
\<close>

datatype pyval = PNone | PStr ustring | PInt int | PBool bool | PObj ustring

function str_nat :: "nat \<Rightarrow> ustring" where
  "str_nat n = (if n < 10 then [48 + n] else str_nat (n div 10) @ [48 + n mod 10])"
  by pat_completeness auto
termination
  by (relation "measure id") auto

declare str_nat.simps [simp del]

text \<open>\<^verbatim>\<open>str(v)\<close>.\<close>

fun py_str :: "pyval \<Rightarrow> ustring" where
  "py_str PNone = ascii ''None''"
| "py_str (PStr s) = s"
| "py_str (PInt i) = (if i < 0 then 45 # str_nat (nat (- i)) else str_nat (nat i))"
| "py_str (PBool b) = (if b then ascii ''True'' else ascii ''False'')"
| "py_str (PObj t) = t"

section \<open>The cell truncation of /api/sql\<close>

text \<open>
  \<^verbatim>\<open>
  def clip(v: Any) -> Any:
      s = "" if v is None else str(v)
      return s if len(s) <= 2000 else s[:2000] + "\<dots>"
  \<close>
  (the last literal is the one character \<^verbatim>\<open>U+2026\<close>).
\<close>

definition clip :: "pyval \<Rightarrow> ustring" where
  "clip v =
     (let s = (if v = PNone then [] else py_str v)
      in if length s \<le> 2000 then s else take 2000 s @ [ellipsis])"

section \<open>JSON values and the request body\<close>

text \<open>
  What \<^verbatim>\<open>json.loads\<close> builds and \<^verbatim>\<open>jsonify\<close> serialises. \<open>JNull\<close> is Python's \<^verbatim>\<open>None\<close>;
  an object is the list of its items in insertion order (a Python \<^verbatim>\<open>dict\<close>: its keys are
  distinct). A float is idealised as a real number; the handlers only test one against
  zero or pass it through.
\<close>

datatype json =
    JNull
  | JBool bool
  | JInt int
  | JFloat real
  | JStr ustring
  | JArr "json list"
  | JObj "(ustring \<times> json) list"

text \<open>Python's truth value of a parsed JSON value.\<close>

fun truthy :: "json \<Rightarrow> bool" where
  "truthy JNull = False"
| "truthy (JBool b) = b"
| "truthy (JInt i) = (i \<noteq> 0)"
| "truthy (JFloat r) = (r \<noteq> 0)"
| "truthy (JStr s) = (s \<noteq> [])"
| "truthy (JArr xs) = (xs \<noteq> [])"
| "truthy (JObj kvs) = (kvs \<noteq> [])"

text \<open>\<^verbatim>\<open>x or y\<close>.\<close>

definition py_or :: "json \<Rightarrow> json \<Rightarrow> json" where
  "py_or x y = (if truthy x then x else y)"

text \<open>
  The body of a POST as the handlers see it: none at all, bytes that are no JSON document
  (or that are not declared as JSON), or a JSON document.
  \<^verbatim>\<open>request.get_json(silent=True)\<close> gives \<^verbatim>\<open>None\<close> for the first two.
\<close>

datatype http_body = Absent | Malformed | Parsed json

fun get_json_silent :: "http_body \<Rightarrow> json" where
  "get_json_silent Absent = JNull"
| "get_json_silent Malformed = JNull"
| "get_json_silent (Parsed j) = j"

text \<open>
  The exceptions a view can leave uncaught: werkzeug's \<^verbatim>\<open>BadRequest\<close> with its
  description, and the two Python errors that calling a method on the wrong kind of value
  or encoding a lone surrogate raise.
\<close>

datatype exn = BadRequest ustring | AttributeError | UnicodeEncodeError

text \<open>\<^verbatim>\<open>payload.get(k)\<close>: only a dict has the method.\<close>

fun dict_get :: "json \<Rightarrow> ustring \<Rightarrow> exn + json" where
  "dict_get (JObj kvs) k = Inr (case map_of kvs k of None \<Rightarrow> JNull | Some v \<Rightarrow> v)"
| "dict_get _ k = Inl AttributeError"

text \<open>\<^verbatim>\<open>x.strip()\<close>: only a string has the method.\<close>

fun str_strip :: "json \<Rightarrow> exn + ustring" where
  "str_strip (JStr s) = Inr (strip s)"
| "str_strip _ = Inl AttributeError"

text \<open>
  The two lines every POST handler starts with, for the field \<open>k\<close>:
  \<^verbatim>\<open>
  payload = request.get_json(silent=True) or {}
  x: str = (payload.get(k) or "").strip()
  \<close>
\<close>

definition json_field :: "ustring \<Rightarrow> http_body \<Rightarrow> exn + ustring" where
  "json_field k body =
     (let payload = py_or (get_json_silent body) (JObj [])
      in case dict_get payload k of
           Inl e \<Rightarrow> Inl e
         | Inr v \<Rightarrow> str_strip (py_or v (JStr [])))"

section \<open>The database collaborator\<close>

text \<open>
  The module \<^verbatim>\<open>aws_db\<close> is not part of the program; its object \<^verbatim>\<open>db\<close> is a parameter
  of every handler. Each of its operations either raises (\<open>Inl\<close> of the exception's
  \<^verbatim>\<open>str\<close>) or returns. A cursor that has executed a statement offers its description
  (the column names \<^verbatim>\<open>c[0]\<close>, or \<^verbatim>\<open>None\<close>), \<^verbatim>\<open>fetchall()\<close> and \<^verbatim>\<open>rowcount\<close>.
  \<open>elapsed_ms\<close> is what the two readings of \<^verbatim>\<open>time.perf_counter\<close> around the execution
  come to, in milliseconds rounded to two decimals; the clock itself is outside the model.
\<close>

record cursor =
  description :: "ustring list option"
  fetchall :: "ustring + pyval list list"
  rowcount :: int

record collaborator =
  cursor_execute :: "ustring \<Rightarrow> ustring + cursor"
  list_databases :: "ustring + ustring list"
  create_database :: "ustring \<Rightarrow> ustring + unit"
  connect_to :: "ustring \<Rightarrow> ustring + unit"
  list_table_schemas :: "ustring \<Rightarrow> ustring + (ustring \<times> ustring) list"
  execute :: "ustring \<Rightarrow> ustring + unit"
  elapsed_ms :: real

text \<open>The calls a handler makes on the collaborator, in order, with their argument.\<close>

datatype call =
    CursorExecute ustring
  | ListDatabases
  | CreateDatabase ustring
  | ConnectTo ustring
  | ListTableSchemas ustring
  | Execute ustring

text \<open>Whether the call, made on \<open>db\<close>, raises.\<close>

fun call_fails :: "collaborator \<Rightarrow> call \<Rightarrow> bool" where
  "call_fails db (CursorExecute q) =
     (case cursor_execute db q of
        Inl e \<Rightarrow> True
      | Inr cur \<Rightarrow>
          (case description cur of
             None \<Rightarrow> False
           | Some d \<Rightarrow> d \<noteq> [] \<and> isl (fetchall cur)))"
| "call_fails db ListDatabases = isl (list_databases db)"
| "call_fails db (CreateDatabase n) = isl (create_database db n)"
| "call_fails db (ConnectTo n) = isl (connect_to db n)"
| "call_fails db (ListTableSchemas s) = isl (list_table_schemas db s)"
| "call_fails db (Execute q) = isl (execute db q)"

section \<open>Responses\<close>

record attachment =
  data :: "nat list"
  mimetype :: ustring
  as_attachment :: bool
  download_name :: ustring

text \<open>
  What a view returns: a JSON document (\<^verbatim>\<open>jsonify\<close>, or a dict that Flask serialises the
  same way), a rendered template with the one variable it is given, a file
  (\<^verbatim>\<open>send_file\<close>), or the error page Flask makes of an uncaught exception.
\<close>

datatype content =
    Json json
  | Template ustring ustring
  | SendFile attachment
  | ErrorPage ustring

record response =
  status :: nat
  content :: content

text \<open>
  Flask turns an exception that leaves a view into a response: an \<^verbatim>\<open>HTTPException\<close>
  into its own status and description, anything else into a 500.
\<close>

fun flask_error :: "exn \<Rightarrow> response" where
  "flask_error (BadRequest m) = \<lparr>status = 400, content = ErrorPage m\<rparr>"
| "flask_error AttributeError = \<lparr>status = 500, content = ErrorPage (ascii ''Internal Server Error'')\<rparr>"
| "flask_error UnicodeEncodeError = \<lparr>status = 500, content = ErrorPage (ascii ''Internal Server Error'')\<rparr>"

section \<open>The helper \<^verbatim>\<open>_exec\<close>\<close>

text \<open>
  \<^verbatim>\<open>
  def _exec(query: str):
      if not query or not query.strip():
          raise BadRequest("No query provided.")
      started = time.perf_counter()
      try:
          with db.conn.cursor() as cur:
              cur.execute(query)
              cols = [c[0] for c in (cur.description or [])]
              rows = cur.fetchall() if cur.description else []
              rowcount = cur.rowcount
      except Exception as e:
          raise BadRequest(str(e))
      duration_ms = round((time.perf_counter() - started) * 1000, 2)
      return cols or [], rows or [], rowcount, duration_ms
  \<close>
  The result is the list of collaborator calls made, and the exception raised or the
  tuple returned.
\<close>

type_synonym query_result = "ustring list \<times> pyval list list \<times> int \<times> real"

definition exec :: "collaborator \<Rightarrow> ustring \<Rightarrow> call list \<times> (exn + query_result)" where
  "exec db query =
     (if query = [] \<or> strip query = [] then ([], Inl (BadRequest (ascii ''No query provided.'')))
      else ([CursorExecute query],
        (case cursor_execute db query of
           Inl e \<Rightarrow> Inl (BadRequest e)
         | Inr cur \<Rightarrow>
             (let cols = (case description cur of None \<Rightarrow> [] | Some d \<Rightarrow> d)
              in case (if cols \<noteq> [] then fetchall cur else Inr []) of
                   Inl e \<Rightarrow> Inl (BadRequest e)
                 | Inr rows \<Rightarrow> Inr (cols, rows, rowcount cur, elapsed_ms db)))))"

section \<open>/api/sql\<close>

text \<open>
  \<^verbatim>\<open>
  def api_sql():
      payload = request.get_json(silent=True) or {}
      query: str = (payload.get("query") or "").strip()
      cols, rows, rowcount, duration_ms = _exec(query)
      ...
      return jsonify({
          "columns": cols,
          "rows": [[clip(c) for c in r] for r in rows],
          "rowcount": rowcount,
          "duration_ms": duration_ms,
      })
  \<close>
\<close>

definition api_sql :: "collaborator \<Rightarrow> http_body \<Rightarrow> call list \<times> (exn + response)" where
  "api_sql db body =
     (case json_field (ascii ''query'') body of
        Inl e \<Rightarrow> ([], Inl e)
      | Inr query \<Rightarrow>
          (case exec db query of
             (cs, Inl e) \<Rightarrow> (cs, Inl e)
           | (cs, Inr (cols, rows, rc, duration_ms)) \<Rightarrow>
               (cs, Inr \<lparr>status = 200, content = Json (JObj
                  [(ascii ''columns'', JArr (map JStr cols)),
                   (ascii ''rows'', JArr (map (\<lambda>r. JArr (map (\<lambda>c. JStr (clip c)) r)) rows)),
                   (ascii ''rowcount'', JInt rc),
                   (ascii ''duration_ms'', JFloat duration_ms)])\<rparr>)))"

section \<open>/api/sql/csv\<close>

text \<open>
  \<^verbatim>\<open>csv.writer(sio)\<close> with the default dialect: delimiter \<^verbatim>\<open>,\<close> (44), quote character
  \<^verbatim>\<open>"\<close> (34) doubled inside a quoted field, line terminator \<^verbatim>\<open>\r\n\<close> (13, 10), minimal
  quoting, no escape character. A field is quoted when it holds the delimiter, the quote
  character or a character of the line terminator.
\<close>

definition needs_quote :: "nat \<Rightarrow> bool" where
  "needs_quote c = (c = 44 \<or> c = 34 \<or> c = 13 \<or> c = 10)"

fun double_quotes :: "ustring \<Rightarrow> ustring" where
  "double_quotes [] = []"
| "double_quotes (c # cs) = (if c = 34 then [34, 34] else [c]) @ double_quotes cs"

text \<open>
  The writer's field step: the record built so far and the number of fields in it; a
  delimiter before every field but the first; the field quoted when asked or needed.
\<close>

definition join_append :: "ustring \<times> nat \<Rightarrow> ustring \<Rightarrow> bool \<Rightarrow> ustring \<times> nat" where
  "join_append st field quoted =
     (let (line, num_fields) = st
      in (line @ (if num_fields > 0 then [44] else [])
               @ (if quoted \<or> list_ex needs_quote field
                  then [34] @ double_quotes field @ [34] else field),
          num_fields + 1))"

text \<open>The text the writer takes for a field: nothing for \<^verbatim>\<open>None\<close>, else \<^verbatim>\<open>str\<close>.\<close>

fun field_text :: "pyval \<Rightarrow> ustring" where
  "field_text PNone = []"
| "field_text v = py_str v"

text \<open>
  \<^verbatim>\<open>w.writerow(row)\<close> on the \<^verbatim>\<open>StringIO\<close> whose content is \<open>sio\<close>: the fields joined, a
  record of one empty field written as an empty quoted field, then the line terminator.
\<close>

definition writerow :: "pyval list \<Rightarrow> ustring \<Rightarrow> ustring" where
  "writerow row sio =
     (let (line, n) = foldl (\<lambda>st v. join_append st (field_text v) False) ([], 0) row;
          (line, n) = (if n > 0 \<and> line = [] then join_append ([], n - 1) [] True else (line, n))
      in sio @ line @ [13, 10])"

definition writerows :: "pyval list list \<Rightarrow> ustring \<Rightarrow> ustring" where
  "writerows rows sio = foldl (\<lambda>s r. writerow r s) sio rows"

text \<open>\<^verbatim>\<open>s.encode("utf-8")\<close>: a lone surrogate cannot be encoded.\<close>

definition utf8_char :: "nat \<Rightarrow> nat list" where
  "utf8_char c =
     (if c < 128 then [c]
      else if c < 2048 then [192 + c div 64, 128 + c mod 64]
      else if c < 65536 then [224 + c div 4096, 128 + (c div 64) mod 64, 128 + c mod 64]
      else [240 + c div 262144, 128 + (c div 4096) mod 64, 128 + (c div 64) mod 64,
            128 + c mod 64])"

definition encode_utf8 :: "ustring \<Rightarrow> exn + nat list" where
  "encode_utf8 s =
     (if list_ex (\<lambda>c. 55296 \<le> c \<and> c \<le> 57343) s then Inl UnicodeEncodeError
      else Inr (concat (map utf8_char s)))"

text \<open>
  \<^verbatim>\<open>
  def api_sql_csv():
      payload = request.get_json(silent=True) or {}
      query: str = (payload.get("query") or "").strip()
      cols, rows, _, _ = _exec(query)
      sio = io.StringIO()
      w = csv.writer(sio)
      if cols:
          w.writerow(cols)
      w.writerows(rows)
      data = io.BytesIO(sio.getvalue().encode("utf-8"))
      return send_file(data, mimetype="text/csv", as_attachment=True,
                       download_name="query_results.csv")
  \<close>
\<close>

definition api_sql_csv :: "collaborator \<Rightarrow> http_body \<Rightarrow> call list \<times> (exn + response)" where
  "api_sql_csv db body =
     (case json_field (ascii ''query'') body of
        Inl e \<Rightarrow> ([], Inl e)
      | Inr query \<Rightarrow>
          (case exec db query of
             (cs, Inl e) \<Rightarrow> (cs, Inl e)
           | (cs, Inr (cols, rows, rc, duration_ms)) \<Rightarrow>
               (let sio = [];
                    sio = (if cols \<noteq> [] then writerow (map PStr cols) sio else sio);
                    sio = writerows rows sio
                in case encode_utf8 sio of
                     Inl e \<Rightarrow> (cs, Inl e)
                   | Inr bytes \<Rightarrow>
                       (cs, Inr \<lparr>status = 200, content = SendFile
                          \<lparr>data = bytes, mimetype = ascii ''text/csv'', as_attachment = True,
                           download_name = ascii ''query_results.csv''\<rparr>\<rparr>))))"

section \<open>The current database and the management endpoints\<close>

text \<open>
  The module's one mutable global:
  \<^verbatim>\<open>_current_db = os.getenv("DB_NAME") or "postgres"\<close>.
\<close>

record server =
  current_db :: ustring

definition init_server :: "ustring option \<Rightarrow> server" where
  "init_server getenv =
     \<lparr>current_db = (case getenv of
                       None \<Rightarrow> ascii ''postgres''
                     | Some v \<Rightarrow> if v \<noteq> [] then v else ascii ''postgres'')\<rparr>"

text \<open>\<^verbatim>\<open>return render_template("index.html", current_db=_current_db)\<close>\<close>

definition index :: "server \<Rightarrow> response" where
  "index st = \<lparr>status = 200, content = Template (ascii ''index.html'') (current_db st)\<rparr>"

text \<open>
  \<^verbatim>\<open>
  def api_list_databases():
      try:
          names = db.list_databases()
      except Exception as e:
          return jsonify({"error": str(e)}), 400
      return jsonify({"databases": names, "current": _current_db})
  \<close>
\<close>

definition api_list_databases :: "collaborator \<Rightarrow> server \<Rightarrow> call list \<times> response" where
  "api_list_databases db st =
     ([ListDatabases],
      (case list_databases db of
         Inl e \<Rightarrow> \<lparr>status = 400, content = Json (JObj [(ascii ''error'', JStr e)])\<rparr>
       | Inr names \<Rightarrow>
           \<lparr>status = 200, content = Json (JObj
              [(ascii ''databases'', JArr (map JStr names)),
               (ascii ''current'', JStr (current_db st))])\<rparr>))"

text \<open>
  \<^verbatim>\<open>
  def api_create_database():
      payload = request.get_json(silent=True) or {}
      dbname: str = (payload.get("name") or "").strip()
      if not dbname:
          raise BadRequest("Database name is required.")
      try:
          db.create_database(dbname)
      except Exception as e:
          return jsonify({"error": str(e)}), 400
      return jsonify({"ok": True, "created": dbname})
  \<close>
\<close>

definition api_create_database :: "collaborator \<Rightarrow> http_body \<Rightarrow> call list \<times> (exn + response)" where
  "api_create_database db body =
     (case json_field (ascii ''name'') body of
        Inl e \<Rightarrow> ([], Inl e)
      | Inr dbname \<Rightarrow>
          if dbname = [] then ([], Inl (BadRequest (ascii ''Database name is required.'')))
          else ([CreateDatabase dbname],
            (case create_database db dbname of
               Inl e \<Rightarrow> Inr \<lparr>status = 400, content = Json (JObj [(ascii ''error'', JStr e)])\<rparr>
             | Inr u \<Rightarrow>
                 Inr \<lparr>status = 200, content = Json (JObj
                   [(ascii ''ok'', JBool True), (ascii ''created'', JStr dbname)])\<rparr>)))"

text \<open>
  \<^verbatim>\<open>
  def api_connect_to():
      global _current_db
      payload = request.get_json(silent=True) or {}
      dbname: str = (payload.get("name") or "").strip()
      if not dbname:
          raise BadRequest("Database name is required.")
      try:
          db.connect_to(dbname)
          _current_db = dbname
      except Exception as e:
          return jsonify({"error": str(e)}), 400
      return jsonify({"ok": True, "current": _current_db})
  \<close>
  The only handler that assigns the global: it returns the state after it as well.
\<close>

definition api_connect_to ::
  "collaborator \<Rightarrow> http_body \<Rightarrow> server \<Rightarrow> (call list \<times> (exn + response)) \<times> server" where
  "api_connect_to db body st =
     (case json_field (ascii ''name'') body of
        Inl e \<Rightarrow> (([], Inl e), st)
      | Inr dbname \<Rightarrow>
          if dbname = [] then (([], Inl (BadRequest (ascii ''Database name is required.''))), st)
          else
            (case connect_to db dbname of
               Inl e \<Rightarrow>
                 (([ConnectTo dbname],
                   Inr \<lparr>status = 400, content = Json (JObj [(ascii ''error'', JStr e)])\<rparr>), st)
             | Inr u \<Rightarrow>
                 (let st' = st\<lparr>current_db := dbname\<rparr>
                  in (([ConnectTo dbname],
                       Inr \<lparr>status = 200, content = Json (JObj
                         [(ascii ''ok'', JBool True), (ascii ''current'', JStr (current_db st'))])\<rparr>),
                      st'))))"

section \<open>/api/table-schemas\<close>

text \<open>
  \<^verbatim>\<open>d[k] = v\<close> on a dict kept as its items in insertion order, and the dict a
  comprehension \<^verbatim>\<open>{k: v for k, v in items}\<close> builds.
\<close>

fun dict_set :: "'k \<Rightarrow> 'v \<Rightarrow> ('k \<times> 'v) list \<Rightarrow> ('k \<times> 'v) list" where
  "dict_set k v [] = [(k, v)]"
| "dict_set k v ((k', v') # d) = (if k' = k then (k, v) # d else (k', v') # dict_set k v d)"

definition dict_of :: "('k \<times> 'v) list \<Rightarrow> ('k \<times> 'v) list" where
  "dict_of items = foldl (\<lambda>d (k, v). dict_set k v d) [] items"

text \<open>
  \<^verbatim>\<open>
  def api_table_schemas():
      schema = request.args.get("schema", "public")
      try:
          mapping = db.list_table_schemas(schema=schema)
          ordered_items = sorted(mapping.items(), key=lambda kv: kv[0])
          return jsonify({
              "schema": schema,
              "tables": [name for name, _ in ordered_items],
              "ddl": {name: ddl for name, ddl in ordered_items},
          })
      except Exception as e:
          return jsonify({"error": str(e)}), 400
  \<close>
  \<open>arg\<close> is the query parameter \<^verbatim>\<open>schema\<close>, when the request has one. \<^verbatim>\<open>sorted\<close> is a
  stable sort by the key, as \<open>sort_key\<close> is.
\<close>

definition api_table_schemas :: "collaborator \<Rightarrow> ustring option \<Rightarrow> call list \<times> response" where
  "api_table_schemas db arg =
     (let schema = (case arg of None \<Rightarrow> ascii ''public'' | Some v \<Rightarrow> v)
      in ([ListTableSchemas schema],
          (case list_table_schemas db schema of
             Inl e \<Rightarrow> \<lparr>status = 400, content = Json (JObj [(ascii ''error'', JStr e)])\<rparr>
           | Inr mapping \<Rightarrow>
               (let ordered_items = sort_key fst mapping
                in \<lparr>status = 200, content = Json (JObj
                     [(ascii ''schema'', JStr schema),
                      (ascii ''tables'', JArr (map (\<lambda>(name, ddl). JStr name) ordered_items)),
                      (ascii ''ddl'',
                       JObj (dict_of (map (\<lambda>(name, ddl). (name, JStr ddl)) ordered_items)))])\<rparr>))))"

section \<open>/healthz\<close>

text \<open>
  \<^verbatim>\<open>
  def healthz():
      try:
          db.execute("SELECT 1")
          return {"ok": True, "db": _current_db}
      except Exception as e:
          return {"ok": False, "error": str(e)}, 500
  \<close>
\<close>

definition healthz :: "collaborator \<Rightarrow> server \<Rightarrow> call list \<times> response" where
  "healthz db st =
     ([Execute (ascii ''SELECT 1'')],
      (case execute db (ascii ''SELECT 1'') of
         Inl e \<Rightarrow>
           \<lparr>status = 500, content = Json (JObj [(ascii ''ok'', JBool False), (ascii ''error'', JStr e)])\<rparr>
       | Inr u \<Rightarrow>
           \<lparr>status = 200, content = Json (JObj
              [(ascii ''ok'', JBool True), (ascii ''db'', JStr (current_db st))])\<rparr>))"

section \<open>The application: one request at a time\<close>

datatype request =
    GetIndex
  | GetDatabases
  | PostDatabases http_body
  | PostConnect http_body
  | GetTableSchemas "ustring option"
  | PostSql http_body
  | PostSqlCsv http_body
  | GetHealthz

text \<open>
  What handling a request comes to: the response sent, the collaborator calls made, and
  the state the process is left in.
\<close>

record outcome =
  reply :: response
  db_calls :: "call list"
  after :: server

text \<open>The response Flask sends for what a view returned or raised.\<close>

definition respond :: "exn + response \<Rightarrow> response" where
  "respond r = (case r of Inl e \<Rightarrow> flask_error e | Inr resp \<Rightarrow> resp)"

fun handle :: "collaborator \<Rightarrow> request \<Rightarrow> server \<Rightarrow> outcome" where
  "handle db GetIndex st = \<lparr>reply = index st, db_calls = [], after = st\<rparr>"
| "handle db GetDatabases st =
     (let (cs, r) = api_list_databases db st in \<lparr>reply = r, db_calls = cs, after = st\<rparr>)"
| "handle db (PostDatabases body) st =
     (let (cs, r) = api_create_database db body
      in \<lparr>reply = respond r, db_calls = cs, after = st\<rparr>)"
| "handle db (PostConnect body) st =
     (let ((cs, r), st') = api_connect_to db body st
      in \<lparr>reply = respond r, db_calls = cs, after = st'\<rparr>)"
| "handle db (GetTableSchemas arg) st =
     (let (cs, r) = api_table_schemas db arg in \<lparr>reply = r, db_calls = cs, after = st\<rparr>)"
| "handle db (PostSql body) st =
     (let (cs, r) = api_sql db body in \<lparr>reply = respond r, db_calls = cs, after = st\<rparr>)"
| "handle db (PostSqlCsv body) st =
     (let (cs, r) = api_sql_csv db body in \<lparr>reply = respond r, db_calls = cs, after = st\<rparr>)"
| "handle db GetHealthz st =
     (let (cs, r) = healthz db st in \<lparr>reply = r, db_calls = cs, after = st\<rparr>)"

text \<open>A run of the process: requests one after the other, each with the collaborator as it then behaves.\<close>

fun run :: "server \<Rightarrow> (collaborator \<times> request) list \<Rightarrow> server" where
  "run st [] = st"
| "run st ((db, req) # rest) = run (after (handle db req st)) rest"

section \<open>The CSV document the specification describes\<close>

text \<open>
  The specification's words for the answer of /api/sql/csv, written out: a field is put in
  quotes, with every quote in it doubled, when it holds a delimiter, a quote or a
  newline character, and is written as it is otherwise; a record is its fields joined by
  commas (a lone empty field as an empty quoted field, so that the line is not blank) and
  a line terminator; the document is the header record, when there are columns, and one
  record per row.
\<close>

definition csv_field :: "ustring \<Rightarrow> ustring" where
  "csv_field s = (if list_ex needs_quote s then [34] @ double_quotes s @ [34] else s)"

fun commas :: "ustring list \<Rightarrow> ustring" where
  "commas [] = []"
| "commas [f] = f"
| "commas (f # g # fs) = f @ [44] @ commas (g # fs)"

definition csv_record :: "ustring list \<Rightarrow> ustring" where
  "csv_record fs =
     (if fs = [[]] then [34, 34] else commas (map csv_field fs)) @ [13, 10]"

definition csv_document :: "ustring list \<Rightarrow> ustring list list \<Rightarrow> ustring" where
  "csv_document header records =
     (if header = [] then [] else csv_record header) @ concat (map csv_record records)"

text \<open>
  A reader for the same dialect, one character at a time, after the states of Python's
  \<^verbatim>\<open>csv.reader\<close>: what a consumer of the file gets back. \<open>pending\<close> is the field
  being read, \<open>fields_read\<close> the fields of the record being read, \<open>records_read\<close> the
  records read.
\<close>

datatype mode = StartRecord | StartField | InField | InQuoted | QuoteInQuoted | EatCRNL

record reader =
  state :: mode
  pending :: ustring
  fields_read :: "ustring list"
  records_read :: "ustring list list"

definition finish_field :: "reader \<Rightarrow> reader" where
  "finish_field r = r\<lparr>fields_read := fields_read r @ [pending r], pending := []\<rparr>"

definition emit :: "reader \<Rightarrow> reader" where
  "emit r = r\<lparr>records_read := records_read r @ [fields_read r], fields_read := [], state := StartRecord\<rparr>"

definition start_field :: "reader \<Rightarrow> nat \<Rightarrow> reader" where
  "start_field r c =
     (if c = 34 then r\<lparr>state := InQuoted\<rparr>
      else if c = 44 then (finish_field r)\<lparr>state := StartField\<rparr>
      else r\<lparr>pending := [c], state := InField\<rparr>)"

definition start_record :: "reader \<Rightarrow> nat \<Rightarrow> reader" where
  "start_record r c =
     (if c = 13 then r\<lparr>state := EatCRNL\<rparr>
      else if c = 10 then emit r
      else start_field r c)"

definition end_field :: "reader \<Rightarrow> nat \<Rightarrow> reader" where
  "end_field r c =
     (if c = 44 then (finish_field r)\<lparr>state := StartField\<rparr>
      else if c = 13 then (finish_field r)\<lparr>state := EatCRNL\<rparr>
      else emit (finish_field r))"

definition read_char :: "reader \<Rightarrow> nat \<Rightarrow> reader" where
  "read_char r c =
     (case state r of
        StartRecord \<Rightarrow> start_record r c
      | StartField \<Rightarrow> if c = 13 \<or> c = 10 then end_field r c else start_field r c
      | InField \<Rightarrow> if c = 44 \<or> c = 13 \<or> c = 10 then end_field r c else r\<lparr>pending := pending r @ [c]\<rparr>
      | InQuoted \<Rightarrow> if c = 34 then r\<lparr>state := QuoteInQuoted\<rparr> else r\<lparr>pending := pending r @ [c]\<rparr>
      | QuoteInQuoted \<Rightarrow>
          if c = 34 then r\<lparr>pending := pending r @ [34], state := InQuoted\<rparr>
          else if c = 44 \<or> c = 13 \<or> c = 10 then end_field r c
          else r\<lparr>pending := pending r @ [c], state := InField\<rparr>
      | EatCRNL \<Rightarrow> if c = 10 then emit r else start_record (emit r) c)"

definition csv_read :: "ustring \<Rightarrow> ustring list list" where
  "csv_read s =
     (let r = foldl read_char \<lparr>state = StartRecord, pending = [], fields_read = [], records_read = []\<rparr> s
      in case state r of
           StartRecord \<Rightarrow> records_read r
         | EatCRNL \<Rightarrow> records_read r @ [fields_read r]
         | _ \<Rightarrow> records_read r @ [fields_read r @ [pending r]])"

section \<open>Observations and examples\<close>

text \<open>
  The value a JSON object body gives the field \<open>k\<close>, when the body is an object that has
  the field.
\<close>

fun field_value :: "http_body \<Rightarrow> ustring \<Rightarrow> json option" where
  "field_value (Parsed (JObj kvs)) k = map_of kvs k"
| "field_value _ k = None"


text \<open>A request turned down as the client's error, with no call on the collaborator.\<close>

definition rejected :: "outcome \<Rightarrow> bool" where
  "rejected res = (status (reply res) = 400 \<and> db_calls res = [])"

text \<open>
  A collaborator to run the handlers on: it knows two statements, one database to connect
  to and two tables.
\<close>

definition sample_db :: collaborator where
  "sample_db =
     \<lparr>cursor_execute = (\<lambda>q.
        if q = ascii ''SELECT 1''
        then Inr \<lparr>description = Some [ascii ''?column?''], fetchall = Inr [[PInt 1]], rowcount = 1\<rparr>
        else if q = ascii ''SELECT * FROM notes''
        then Inr \<lparr>description = Some [ascii ''id'', ascii ''note'', ascii ''body''],
                  fetchall = Inr [[PInt 7, PNone, PStr (replicate 2500 120)]], rowcount = 1\<rparr>
        else Inl (ascii ''syntax error'')),
      list_databases = Inr [ascii ''postgres'', ascii ''shop''],
      create_database = (\<lambda>n. Inr ()),
      connect_to = (\<lambda>n. if n = ascii ''shop'' then Inr () else Inl (ascii ''no such database'')),
      list_table_schemas = (\<lambda>s. Inr [(ascii ''users'', ascii ''CREATE TABLE users ();''),
                                       (ascii ''items'', ascii ''CREATE TABLE items ();'')]),
      execute = (\<lambda>q. Inr ()),
      elapsed_ms = 0.42\<rparr>"

definition padded_select :: http_body where
  "padded_select = Parsed (JObj [(ascii ''query'', JStr (ascii '' SELECT 1 ''))])"

definition select_notes :: http_body where
  "select_notes = Parsed (JObj [(ascii ''query'', JStr (ascii ''SELECT * FROM notes''))])"

definition notes_reply :: response where
  "notes_reply = \<lparr>status = 200, content = Json (JObj
     [(ascii ''columns'', JArr [JStr (ascii ''id''), JStr (ascii ''note''), JStr (ascii ''body'')]),
      (ascii ''rows'', JArr [JArr [JStr (ascii ''7''), JStr [], JStr (replicate 2000 120 @ [8230])]]),
      (ascii ''rowcount'', JInt 1),
      (ascii ''duration_ms'', JFloat 0.42)])\<rparr>"

definition blank_query :: http_body where
  "blank_query = Parsed (JObj [(ascii ''query'', JStr [32, 9, 10])])"

definition blank_name :: http_body where
  "blank_name = Parsed (JObj [(ascii ''name'', JStr [32, 9, 10])])"

text \<open>The same collaborator with its server gone.\<close>

definition broken_db :: collaborator where
  "broken_db = sample_db
     \<lparr>list_databases := Inl (ascii ''connection refused''),
      execute := (\<lambda>q. Inl (ascii ''connection refused''))\<rparr>"

definition connect_shop :: http_body where
  "connect_shop = Parsed (JObj [(ascii ''name'', JStr (ascii '' shop ''))])"

definition connect_nope :: http_body where
  "connect_nope = Parsed (JObj [(ascii ''name'', JStr (ascii ''nope''))])"

definition select_one_csv :: response where
  "select_one_csv = \<lparr>status = 200, content = SendFile
     \<lparr>data = [63, 99, 111, 108, 117, 109, 110, 63, 13, 10, 49, 13, 10],
      mimetype = ascii ''text/csv'', as_attachment = True,
      download_name = ascii ''query_results.csv''\<rparr>\<rparr>"

definition sample_tables :: "(ustring \<times> ustring) list" where
  "sample_tables = [(ascii ''users'', ascii ''CREATE TABLE users ();''),
                    (ascii ''items'', ascii ''CREATE TABLE items ();'')]"

section \<open>Trimming\<close>

text \<open>
  \<open>strip\<close> removes whitespace at the two ends and nothing else, gives the empty string
  exactly for a string of whitespace, and changes nothing when applied again.
\<close>

lemma strip_Nil: "strip [] = []"
  by (simp add: strip_def)

lemma strip_eq_Nil_iff: "strip s = [] \<longleftrightarrow> (\<forall>c\<in>set s. is_space c)"
proof
  assume "strip s = []"
  then have all: "\<forall>c\<in>set (dropWhile is_space s). is_space c"
    by (simp add: strip_def)
  have "dropWhile is_space s = []"
  proof (rule ccontr)
    assume ne: "dropWhile is_space s \<noteq> []"
    then have "\<not> is_space (hd (dropWhile is_space s))"
      by (rule hd_dropWhile)
    moreover from ne have "hd (dropWhile is_space s) \<in> set (dropWhile is_space s)"
      by simp
    ultimately show False using all by blast
  qed
  then show "\<forall>c\<in>set s. is_space c"
    by simp
next
  assume "\<forall>c\<in>set s. is_space c"
  then show "strip s = []"
    by (auto simp: strip_def dest: set_dropWhileD)
qed

lemma strip_decomp:
  "\<exists>a b. s = a @ strip s @ b \<and> (\<forall>c\<in>set a. is_space c) \<and> (\<forall>c\<in>set b. is_space c)"
proof -
  define r where "r = dropWhile is_space s"
  have s: "s = takeWhile is_space s @ r"
    by (simp add: r_def)
  have "rev (dropWhile is_space (rev r)) @ rev (takeWhile is_space (rev r))
          = rev (takeWhile is_space (rev r) @ dropWhile is_space (rev r))"
    by (simp only: rev_append)
  also have "\<dots> = r"
    by simp
  finally have r: "r = strip s @ rev (takeWhile is_space (rev r))"
    by (simp add: strip_def r_def)
  have a: "\<forall>c\<in>set (takeWhile is_space s). is_space c"
    by (auto dest: set_takeWhileD)
  have b: "\<forall>c\<in>set (rev (takeWhile is_space (rev r))). is_space c"
    by (auto dest: set_takeWhileD)
  from s r have "s = takeWhile is_space s @ strip s @ rev (takeWhile is_space (rev r))"
    by simp
  with a b show ?thesis by blast
qed

lemma last_dropWhile_ne: "dropWhile P xs \<noteq> [] \<Longrightarrow> last (dropWhile P xs) = last xs"
proof -
  assume ne: "dropWhile P xs \<noteq> []"
  have "last xs = last (takeWhile P xs @ dropWhile P xs)"
    by simp
  also from ne have "\<dots> = last (dropWhile P xs)"
    by (simp only: last_append if_False)
  finally show ?thesis
    by simp
qed

lemma strip_hd: "strip s \<noteq> [] \<Longrightarrow> \<not> is_space (hd (strip s))"
proof -
  assume ne: "strip s \<noteq> []"
  define r where "r = dropWhile is_space s"
  from ne have d: "dropWhile is_space (rev r) \<noteq> []"
    by (simp add: strip_def r_def)
  then have r: "r \<noteq> []"
    by auto
  have "hd (strip s) = last (dropWhile is_space (rev r))"
    by (simp add: strip_def r_def hd_rev)
  also from d have "\<dots> = last (rev r)"
    by (rule last_dropWhile_ne)
  also have "\<dots> = hd r"
    by (rule last_rev)
  finally have "hd (strip s) = hd (dropWhile is_space s)"
    by (simp add: r_def)
  moreover from r have "\<not> is_space (hd (dropWhile is_space s))"
    unfolding r_def by (rule hd_dropWhile)
  ultimately show ?thesis
    by simp
qed

lemma strip_last: "strip s \<noteq> [] \<Longrightarrow> \<not> is_space (last (strip s))"
proof -
  assume ne: "strip s \<noteq> []"
  define r where "r = dropWhile is_space s"
  from ne have d: "dropWhile is_space (rev r) \<noteq> []"
    by (simp add: strip_def r_def)
  have "last (strip s) = hd (dropWhile is_space (rev r))"
    by (simp add: strip_def r_def last_rev)
  moreover from d have "\<not> is_space (hd (dropWhile is_space (rev r)))"
    by (rule hd_dropWhile)
  ultimately show ?thesis
    by simp
qed

lemma strip_idem: "strip (strip s) = strip s"
proof (cases "strip s = []")
  case True
  then show ?thesis
    by (simp add: strip_Nil)
next
  case False
  then have "dropWhile is_space (strip s) = strip s"
    by (simp add: dropWhile_eq_self_iff strip_hd)
  moreover from False have "dropWhile is_space (rev (strip s)) = rev (strip s)"
    by (simp add: dropWhile_eq_self_iff strip_last hd_rev)
  ultimately have "rev (dropWhile is_space (rev (dropWhile is_space (strip s)))) = strip s"
    by simp
  then show ?thesis
    by (simp add: strip_def [of "strip s"])
qed

section \<open>The field of a request body\<close>




lemma json_field_JObj:
  "json_field k (Parsed (JObj kvs)) =
     (case map_of kvs k of
        None \<Rightarrow> Inr []
      | Some v \<Rightarrow> if truthy v then str_strip v else Inr [])"
  by (cases kvs) (auto simp: json_field_def py_or_def strip_Nil split: option.splits)

lemma json_field_JStr:
  "map_of kvs k = Some (JStr s) \<Longrightarrow> json_field k (Parsed (JObj kvs)) = Inr (strip s)"
  by (cases "s = []") (simp_all add: json_field_JObj strip_Nil)

lemma field_value_json_field:
  "field_value body k = Some (JStr s) \<Longrightarrow> json_field k body = Inr (strip s)"
  by (cases "(body, k)" rule: field_value.cases) (simp_all add: json_field_JStr)



section \<open>What \<^verbatim>\<open>_exec\<close> calls and returns\<close>

lemma exec_blank: "strip q = [] \<Longrightarrow> exec db q = ([], Inl (BadRequest (ascii ''No query provided.'')))"
  by (simp add: exec_def)

lemma exec_calls: "strip q \<noteq> [] \<Longrightarrow> fst (exec db q) = [CursorExecute q]"
  by (auto simp: exec_def strip_Nil)

lemma exec_failure:
  "exec db q = (cs, r) \<Longrightarrow> c \<in> set cs \<Longrightarrow> call_fails db c \<Longrightarrow> \<exists>e. r = Inl (BadRequest e)"
  by (auto simp: exec_def split: if_splits sum.splits option.splits)

lemma exec_no_columns:
  "exec db q = (cs, Inr (cols, rows, rc, d)) \<Longrightarrow> cols = [] \<Longrightarrow> rows = []"
  by (auto simp: exec_def Let_def split: if_splits sum.splits option.splits)

section \<open>Evaluating the examples\<close>

lemmas sample_eval = json_field_def py_or_def exec_def sample_db_def ascii_def
  strip_def is_space_def respond_def

lemma api_sql_select_notes:
  "api_sql sample_db select_notes = ([CursorExecute (ascii ''SELECT * FROM notes'')], Inr notes_reply)"
  by (simp add: select_notes_def notes_reply_def api_sql_def sample_eval clip_def str_nat.simps ellipsis_def)

lemma api_sql_csv_select_one:
  "api_sql_csv sample_db padded_select = ([CursorExecute (ascii ''SELECT 1'')], Inr select_one_csv)"
  by (simp add: padded_select_def select_one_csv_def api_sql_csv_def sample_eval writerows_def
        writerow_def join_append_def needs_quote_def str_nat.simps encode_utf8_def utf8_char_def)

lemma sample_tables_listed:
  "list_table_schemas sample_db (case None of None \<Rightarrow> ascii ''public'' | Some v \<Rightarrow> v) = Inr sample_tables"
  by (simp add: sample_db_def sample_tables_def)

lemma sample_tables_distinct: "distinct (map fst sample_tables)"
  by (simp add: sample_tables_def ascii_def)

lemma broken_execute: "execute broken_db (ascii ''SELECT 1'') = Inl (ascii ''connection refused'')"
  by (simp add: broken_db_def)

lemma sample_execute: "execute sample_db (ascii ''SELECT 1'') = Inr ()"
  by (simp add: sample_db_def)

lemma broken_list_fails:
  "ListDatabases \<in> set (db_calls (handle broken_db GetDatabases (init_server None)))
   \<and> call_fails broken_db ListDatabases"
  by (simp add: api_list_databases_def broken_db_def)

lemma connect_shop_field:
  "field_value connect_shop (ascii ''name'') = Some (JStr (ascii '' shop ''))
   \<and> strip (ascii '' shop '') \<noteq> []"
  by (simp add: connect_shop_def ascii_def strip_def is_space_def)

lemma connect_nope_field:
  "field_value connect_nope (ascii ''name'') = Some (JStr (ascii ''nope''))
   \<and> strip (ascii ''nope'') \<noteq> []"
  by (simp add: connect_nope_def ascii_def strip_def is_space_def)

lemma strip_shop: "strip (ascii '' shop '') = ascii ''shop''"
  by (simp add: ascii_def strip_def is_space_def)

lemma strip_nope: "strip (ascii ''nope'') = ascii ''nope''"
  by (simp add: ascii_def strip_def is_space_def)

lemma connect_to_shop: "connect_to sample_db (ascii ''shop'') = Inr ()"
  by (simp add: sample_db_def)

lemma connect_to_nope: "connect_to sample_db (ascii ''nope'') = Inl (ascii ''no such database'')"
  by (simp add: sample_db_def ascii_def)

section \<open>The truncation of cells\<close>

lemma clip_length: "length (clip v) \<le> 2001"
  by (simp add: clip_def Let_def)

lemma clip_str: "clip (PStr s) = (if length s \<le> 2000 then s else take 2000 s @ [ellipsis])"
  by (simp add: clip_def)

text \<open>
  Claim C9. The truncation is the identity on a string of at most 2000 characters, and
  truncating an already truncated string changes nothing: a clipped long string has 2001
  characters, so it is cut again after its first 2000 and gets the same ellipsis back.
\<close>

theorem clip_idempotent:
  "(length s \<le> 2000 \<longrightarrow> clip (PStr s) = s) \<and> clip (PStr (clip (PStr s))) = clip (PStr s)"
  by (simp add: clip_str)

text \<open>
  The witness: a short statement is kept, and a string of 2500 characters is clipped to
  2000 and the ellipsis, once and for all.
\<close>

theorem clip_idempotent_witness:
  "length (ascii ''SELECT 1'') \<le> 2000 \<and> clip (PStr (ascii ''SELECT 1'')) = ascii ''SELECT 1''
   \<and> clip (PStr (clip (PStr (replicate 2500 65)))) = clip (PStr (replicate 2500 65))
   \<and> clip (PStr (replicate 2500 65)) = replicate 2000 65 @ [8230]"
  using clip_idempotent [of "ascii ''SELECT 1''"] clip_idempotent [of "replicate 2500 65"]
  by (simp add: ascii_def clip_str ellipsis_def)

section \<open>The answer of /api/sql\<close>

lemma api_sql_Inr:
  assumes "api_sql db body = (cs, Inr resp)"
  shows "\<exists>q cols rows rc d.
           json_field (ascii ''query'') body = Inr q \<and>
           exec db q = (cs, Inr (cols, rows, rc, d)) \<and>
           resp = \<lparr>status = 200, content = Json (JObj
                  [(ascii ''columns'', JArr (map JStr cols)),
                   (ascii ''rows'', JArr (map (\<lambda>r. JArr (map (\<lambda>c. JStr (clip c)) r)) rows)),
                   (ascii ''rowcount'', JInt rc),
                   (ascii ''duration_ms'', JFloat d)])\<rparr>"
  using assms
  by (auto simp: api_sql_def split: sum.splits prod.splits)

text \<open>
  Claim C1. When /api/sql succeeds, the \<^verbatim>\<open>rows\<close> of its JSON answer are the rows the
  collaborator returned with every cell replaced, each on its own, by its clipped text:
  the cell's string (empty for \<^verbatim>\<open>None\<close>, else \<^verbatim>\<open>str\<close>) unchanged when it has at most
  2000 characters, else its first 2000 characters and one ellipsis. No cell of the answer
  is longer than 2001 characters.
\<close>

theorem api_sql_cells_clipped:
  assumes "api_sql db body = (cs, Inr resp)"
  shows "\<exists>q cols rows rc d.
           json_field (ascii ''query'') body = Inr q \<and>
           exec db q = (cs, Inr (cols, rows, rc, d)) \<and>
           status resp = 200 \<and>
           content resp = Json (JObj
                  [(ascii ''columns'', JArr (map JStr cols)),
                   (ascii ''rows'', JArr (map (\<lambda>r. JArr (map (\<lambda>c. JStr (clip c)) r)) rows)),
                   (ascii ''rowcount'', JInt rc),
                   (ascii ''duration_ms'', JFloat d)]) \<and>
           (\<forall>r\<in>set rows. \<forall>c\<in>set r.
              (let s = (if c = PNone then [] else py_str c)
               in (length s \<le> 2000 \<longrightarrow> clip c = s)
                \<and> (length s > 2000 \<longrightarrow> clip c = take 2000 s @ [ellipsis])
                \<and> length (clip c) \<le> 2001))"
proof -
  from api_sql_Inr [OF assms] obtain q cols rows rc d where
    "json_field (ascii ''query'') body = Inr q"
    "exec db q = (cs, Inr (cols, rows, rc, d))"
    "resp = \<lparr>status = 200, content = Json (JObj
                  [(ascii ''columns'', JArr (map JStr cols)),
                   (ascii ''rows'', JArr (map (\<lambda>r. JArr (map (\<lambda>c. JStr (clip c)) r)) rows)),
                   (ascii ''rowcount'', JInt rc),
                   (ascii ''duration_ms'', JFloat d)])\<rparr>"
    by blast
  moreover have "\<forall>r\<in>set rows. \<forall>c\<in>set r.
              (let s = (if c = PNone then [] else py_str c)
               in (length s \<le> 2000 \<longrightarrow> clip c = s)
                \<and> (length s > 2000 \<longrightarrow> clip c = take 2000 s @ [ellipsis])
                \<and> length (clip c) \<le> 2001)"
    by (simp add: clip_def Let_def)
  ultimately show ?thesis
    by simp
qed

text \<open>
  The witness: a row with an integer, a \<^verbatim>\<open>None\<close> and a string of 2500 characters.
\<close>

theorem api_sql_cells_clipped_witness:
  "api_sql sample_db select_notes = ([CursorExecute (ascii ''SELECT * FROM notes'')], Inr notes_reply)
   \<and> (\<exists>q cols rows rc d.
           json_field (ascii ''query'') select_notes = Inr q \<and>
           exec sample_db q = ([CursorExecute (ascii ''SELECT * FROM notes'')], Inr (cols, rows, rc, d)) \<and>
           status notes_reply = 200 \<and>
           content notes_reply = Json (JObj
                  [(ascii ''columns'', JArr (map JStr cols)),
                   (ascii ''rows'', JArr (map (\<lambda>r. JArr (map (\<lambda>c. JStr (clip c)) r)) rows)),
                   (ascii ''rowcount'', JInt rc),
                   (ascii ''duration_ms'', JFloat d)]) \<and>
           (\<forall>r\<in>set rows. \<forall>c\<in>set r.
              (let s = (if c = PNone then [] else py_str c)
               in (length s \<le> 2000 \<longrightarrow> clip c = s)
                \<and> (length s > 2000 \<longrightarrow> clip c = take 2000 s @ [ellipsis])
                \<and> length (clip c) \<le> 2001)))"
  using api_sql_cells_clipped [OF api_sql_select_notes] api_sql_select_notes
  by simp

text \<open>
  Claim C10. In the JSON answer of /api/sql a cell that is \<^verbatim>\<open>None\<close> is the empty string:
  not the text \<^verbatim>\<open>None\<close>, not a JSON null.
\<close>

theorem null_cell_empty_string:
  assumes "api_sql db body = (cs, Inr resp)"
  shows "\<exists>q cols rows rc d.
           exec db q = (cs, Inr (cols, rows, rc, d)) \<and>
           content resp = Json (JObj
             [(ascii ''columns'', JArr (map JStr cols)),
              (ascii ''rows'',
               JArr (map (\<lambda>r. JArr (map (\<lambda>c. if c = PNone then JStr [] else JStr (clip c)) r)) rows)),
              (ascii ''rowcount'', JInt rc),
              (ascii ''duration_ms'', JFloat d)]) \<and>
           JStr [] \<noteq> JStr (ascii ''None'') \<and> JStr [] \<noteq> JNull"
proof -
  from api_sql_Inr [OF assms] obtain q cols rows rc d where
    e: "exec db q = (cs, Inr (cols, rows, rc, d))" and
    r: "resp = \<lparr>status = 200, content = Json (JObj
                  [(ascii ''columns'', JArr (map JStr cols)),
                   (ascii ''rows'', JArr (map (\<lambda>r. JArr (map (\<lambda>c. JStr (clip c)) r)) rows)),
                   (ascii ''rowcount'', JInt rc),
                   (ascii ''duration_ms'', JFloat d)])\<rparr>"
    by blast
  have "clip PNone = []"
    by (simp add: clip_def)
  with r have "content resp = Json (JObj
             [(ascii ''columns'', JArr (map JStr cols)),
              (ascii ''rows'',
               JArr (map (\<lambda>r. JArr (map (\<lambda>c. if c = PNone then JStr [] else JStr (clip c)) r)) rows)),
              (ascii ''rowcount'', JInt rc),
              (ascii ''duration_ms'', JFloat d)])"
    by simp
  moreover have "JStr [] \<noteq> JStr (ascii ''None'')" and "JStr [] \<noteq> JNull"
    by (simp_all add: ascii_def)
  ultimately show ?thesis
    using e by blast
qed

text \<open>The witness: the second cell of the example row is \<^verbatim>\<open>None\<close>.\<close>

theorem null_cell_empty_string_witness:
  "api_sql sample_db select_notes = ([CursorExecute (ascii ''SELECT * FROM notes'')], Inr notes_reply)
   \<and> (\<exists>q cols rows rc d.
           exec sample_db q = ([CursorExecute (ascii ''SELECT * FROM notes'')], Inr (cols, rows, rc, d)) \<and>
           content notes_reply = Json (JObj
             [(ascii ''columns'', JArr (map JStr cols)),
              (ascii ''rows'',
               JArr (map (\<lambda>r. JArr (map (\<lambda>c. if c = PNone then JStr [] else JStr (clip c)) r)) rows)),
              (ascii ''rowcount'', JInt rc),
              (ascii ''duration_ms'', JFloat d)]) \<and>
           JStr [] \<noteq> JStr (ascii ''None'') \<and> JStr [] \<noteq> JNull)"
  using null_cell_empty_string [OF api_sql_select_notes] api_sql_select_notes
  by simp

section \<open>The query that reaches the cursor\<close>

lemma api_sql_calls:
  "json_field (ascii ''query'') body = Inr q \<Longrightarrow> db_calls (handle db (PostSql body) st) = fst (exec db q)"
  by (auto simp: api_sql_def split: sum.splits prod.splits)

lemma api_sql_csv_calls:
  "json_field (ascii ''query'') body = Inr q \<Longrightarrow> db_calls (handle db (PostSqlCsv body) st) = fst (exec db q)"
  by (auto simp: api_sql_csv_def Let_def split: sum.splits prod.splits)

text \<open>
  Claim C3 as stated fails: for the query \<^verbatim>\<open>" SELECT 1 "\<close> the cursor is given
  \<^verbatim>\<open>"SELECT 1"\<close>, not the string that came in.
\<close>

theorem query_forwarded_unmodified_counterexample:
  "field_value padded_select (ascii ''query'') = Some (JStr (ascii '' SELECT 1 ''))
   \<and> db_calls (handle sample_db (PostSql padded_select) (init_server None))
       = [CursorExecute (ascii ''SELECT 1'')]
   \<and> db_calls (handle sample_db (PostSql padded_select) (init_server None))
       \<noteq> [CursorExecute (ascii '' SELECT 1 '')]"
  by (simp add: padded_select_def api_sql_def sample_eval)

text \<open>
  Claim C3, as amended. The string handed to the cursor is the request's query with the
  whitespace at its two ends removed, and otherwise as it came: the query is some leading
  whitespace, then the string executed, then some trailing whitespace.
\<close>

theorem query_forwarded_trimmed:
  assumes "field_value body (ascii ''query'') = Some (JStr s)" and "strip s \<noteq> []"
  shows "db_calls (handle db (PostSql body) st) = [CursorExecute (strip s)]
       \<and> db_calls (handle db (PostSqlCsv body) st) = [CursorExecute (strip s)]
       \<and> (\<exists>a b. s = a @ strip s @ b \<and> (\<forall>c\<in>set a. is_space c) \<and> (\<forall>c\<in>set b. is_space c))"
proof -
  from assms(1) have jf: "json_field (ascii ''query'') body = Inr (strip s)"
    by (rule field_value_json_field)
  from assms(2) have "strip (strip s) \<noteq> []"
    by (simp add: strip_idem)
  then have "fst (exec db (strip s)) = [CursorExecute (strip s)]"
    by (rule exec_calls)
  then show ?thesis
    using strip_decomp [of s]
    by (simp add: api_sql_calls [OF jf] api_sql_csv_calls [OF jf] del: handle.simps)
qed

text \<open>The witness: the same padded query, on both SQL endpoints.\<close>

theorem query_forwarded_trimmed_witness:
  "field_value padded_select (ascii ''query'') = Some (JStr (ascii '' SELECT 1 ''))
   \<and> strip (ascii '' SELECT 1 '') = ascii ''SELECT 1''
   \<and> db_calls (handle sample_db (PostSql padded_select) (init_server None))
       = [CursorExecute (ascii ''SELECT 1'')]
   \<and> db_calls (handle sample_db (PostSqlCsv padded_select) (init_server None))
       = [CursorExecute (ascii ''SELECT 1'')]"
proof -
  have f: "field_value padded_select (ascii ''query'') = Some (JStr (ascii '' SELECT 1 ''))"
    by (simp add: padded_select_def)
  have s: "strip (ascii '' SELECT 1 '') = ascii ''SELECT 1''"
    by (simp add: sample_eval)
  then have ne: "strip (ascii '' SELECT 1 '') \<noteq> []"
    by (simp add: ascii_def)
  from query_forwarded_trimmed [OF f ne, of sample_db "init_server None"] f s
  show ?thesis
    by (simp del: handle.simps)
qed

section \<open>Requests turned down\<close>

lemma api_sql_blank:
  "json_field (ascii ''query'') body = Inr [] \<Longrightarrow>
     handle db (PostSql body) st =
       \<lparr>reply = \<lparr>status = 400, content = ErrorPage (ascii ''No query provided.'')\<rparr>,
        db_calls = [], after = st\<rparr>"
  by (simp add: api_sql_def exec_def respond_def)

lemma api_sql_csv_blank:
  "json_field (ascii ''query'') body = Inr [] \<Longrightarrow>
     handle db (PostSqlCsv body) st =
       \<lparr>reply = \<lparr>status = 400, content = ErrorPage (ascii ''No query provided.'')\<rparr>,
        db_calls = [], after = st\<rparr>"
  by (simp add: api_sql_csv_def exec_def respond_def)

lemma api_create_database_blank:
  "json_field (ascii ''name'') body = Inr [] \<Longrightarrow>
     handle db (PostDatabases body) st =
       \<lparr>reply = \<lparr>status = 400, content = ErrorPage (ascii ''Database name is required.'')\<rparr>,
        db_calls = [], after = st\<rparr>"
  by (simp add: api_create_database_def respond_def)

lemma api_connect_to_blank:
  "json_field (ascii ''name'') body = Inr [] \<Longrightarrow>
     handle db (PostConnect body) st =
       \<lparr>reply = \<lparr>status = 400, content = ErrorPage (ascii ''Database name is required.'')\<rparr>,
        db_calls = [], after = st\<rparr>"
  by (simp add: api_connect_to_def respond_def)

text \<open>
  Claim C4. A query or a name that is empty or only whitespace is turned down with
  status 400 and without any call on the collaborator, by both SQL endpoints, by
  create-database and by connect; \<^verbatim>\<open>_exec\<close> itself raises before it touches the cursor.
\<close>

theorem blank_input_rejected:
  assumes "\<forall>c\<in>set s. is_space c"
  shows "exec db s = ([], Inl (BadRequest (ascii ''No query provided.'')))
       \<and> (field_value body (ascii ''query'') = Some (JStr s) \<longrightarrow>
            rejected (handle db (PostSql body) st) \<and> rejected (handle db (PostSqlCsv body) st))
       \<and> (field_value body (ascii ''name'') = Some (JStr s) \<longrightarrow>
            rejected (handle db (PostDatabases body) st)
          \<and> rejected (handle db (PostConnect body) st))"
proof -
  from assms have blank: "strip s = []"
    by (simp add: strip_eq_Nil_iff)
  then have "exec db s = ([], Inl (BadRequest (ascii ''No query provided.'')))"
    by (rule exec_blank)
  moreover have "rejected (handle db (PostSql body) st) \<and> rejected (handle db (PostSqlCsv body) st)"
    if "field_value body (ascii ''query'') = Some (JStr s)"
  proof -
    from that blank have jf: "json_field (ascii ''query'') body = Inr []"
      by (simp add: field_value_json_field)
    show ?thesis
      unfolding rejected_def api_sql_blank [OF jf] api_sql_csv_blank [OF jf] by simp
  qed
  moreover have "rejected (handle db (PostDatabases body) st)
               \<and> rejected (handle db (PostConnect body) st)"
    if "field_value body (ascii ''name'') = Some (JStr s)"
  proof -
    from that blank have jf: "json_field (ascii ''name'') body = Inr []"
      by (simp add: field_value_json_field)
    show ?thesis
      unfolding rejected_def api_create_database_blank [OF jf] api_connect_to_blank [OF jf]
      by simp
  qed
  ultimately show ?thesis
    by blast
qed

text \<open>The witness: a space, a tab and a newline, as the query and as the name.\<close>

theorem blank_input_rejected_witness:
  "is_space 32 \<and> is_space 9 \<and> is_space 10
   \<and> field_value blank_query (ascii ''query'') = Some (JStr [32, 9, 10])
   \<and> field_value blank_name (ascii ''name'') = Some (JStr [32, 9, 10])
   \<and> exec sample_db [32, 9, 10] = ([], Inl (BadRequest (ascii ''No query provided.'')))
   \<and> rejected (handle sample_db (PostSql blank_query) (init_server None))
   \<and> rejected (handle sample_db (PostSqlCsv blank_query) (init_server None))
   \<and> rejected (handle sample_db (PostDatabases blank_name) (init_server None))
   \<and> rejected (handle sample_db (PostConnect blank_name) (init_server None))"
proof -
  have sp: "\<forall>c\<in>set [32, 9, 10]. is_space c"
    by (simp add: is_space_def)
  have q: "field_value blank_query (ascii ''query'') = Some (JStr [32, 9, 10])"
    by (simp add: blank_query_def)
  have n: "field_value blank_name (ascii ''name'') = Some (JStr [32, 9, 10])"
    by (simp add: blank_name_def)
  from blank_input_rejected [OF sp, of sample_db blank_query "init_server None"]
       blank_input_rejected [OF sp, of sample_db blank_name "init_server None"] sp q n
  show ?thesis
    by (simp del: handle.simps)
qed



text \<open>
  Where this ends: a JSON document that is not an object and that Python counts as true
  (a non-empty array, string or number, or \<^verbatim>\<open>true\<close>) has no method \<^verbatim>\<open>get\<close>; the
  handler raises \<^verbatim>\<open>AttributeError\<close> and Flask answers 500, still without a call on the
  collaborator.
\<close>

lemma array_body_server_error:
  "handle db (PostSql (Parsed (JArr [JInt 1]))) st =
     \<lparr>reply = \<lparr>status = 500, content = ErrorPage (ascii ''Internal Server Error'')\<rparr>,
      db_calls = [], after = st\<rparr>"
  by (simp add: api_sql_def json_field_def py_or_def respond_def)

section \<open>The current database\<close>

lemma handle_after_other: "(\<forall>body. req \<noteq> PostConnect body) \<Longrightarrow> after (handle db req st) = st"
  by (cases req) (simp_all add: split_def Let_def)

lemma api_connect_to_cases:
  "api_connect_to db body st =
     (case json_field (ascii ''name'') body of
        Inl e \<Rightarrow> (([], Inl e), st)
      | Inr n \<Rightarrow>
          if n = [] then (([], Inl (BadRequest (ascii ''Database name is required.''))), st)
          else (case connect_to db n of
                  Inl e \<Rightarrow> (([ConnectTo n],
                     Inr \<lparr>status = 400, content = Json (JObj [(ascii ''error'', JStr e)])\<rparr>), st)
                | Inr u \<Rightarrow> (([ConnectTo n],
                     Inr \<lparr>status = 200, content = Json (JObj
                        [(ascii ''ok'', JBool True), (ascii ''current'', JStr n)])\<rparr>),
                     st\<lparr>current_db := n\<rparr>)))"
  by (simp add: api_connect_to_def Let_def split: sum.splits)

lemma connect_changes:
  assumes "after (handle db (PostConnect body) st) \<noteq> st"
  shows "\<exists>n u. json_field (ascii ''name'') body = Inr n \<and> n \<noteq> [] \<and> connect_to db n = Inr u
           \<and> current_db (after (handle db (PostConnect body) st)) = n"
  using assms
  by (auto simp: api_connect_to_cases split: sum.splits if_splits)

lemma handle_changes:
  assumes "after (handle db req st) \<noteq> st"
  shows "\<exists>body n u. req = PostConnect body \<and> json_field (ascii ''name'') body = Inr n \<and> n \<noteq> []
           \<and> connect_to db n = Inr u \<and> current_db (after (handle db req st)) = n"
proof -
  from assms obtain body where req: "req = PostConnect body"
    using handle_after_other by blast
  with assms connect_changes [of db body st] show ?thesis
    by blast
qed

lemma connect_failure:
  assumes "json_field (ascii ''name'') body = Inr n" and "n \<noteq> []" and "connect_to db n = Inl e"
  shows "handle db (PostConnect body) st =
           \<lparr>reply = \<lparr>status = 400, content = Json (JObj [(ascii ''error'', JStr e)])\<rparr>,
            db_calls = [ConnectTo n], after = st\<rparr>"
  using assms by (simp add: api_connect_to_cases respond_def)

lemma connect_success:
  assumes "json_field (ascii ''name'') body = Inr n" and "n \<noteq> []" and "connect_to db n = Inr u"
  shows "handle db (PostConnect body) st =
           \<lparr>reply = \<lparr>status = 200, content = Json (JObj
                      [(ascii ''ok'', JBool True), (ascii ''current'', JStr n)])\<rparr>,
            db_calls = [ConnectTo n], after = st\<lparr>current_db := n\<rparr>\<rparr>"
  using assms by (simp add: api_connect_to_cases respond_def)

lemma run_current_db:
  "current_db (run st steps) \<noteq> current_db st \<Longrightarrow>
     \<exists>db req body u. (db, req) \<in> set steps \<and> req = PostConnect body
        \<and> json_field (ascii ''name'') body = Inr (current_db (run st steps))
        \<and> connect_to db (current_db (run st steps)) = Inr u"
proof (induction steps arbitrary: st)
  case Nil
  then show ?case by simp
next
  case (Cons step rest)
  obtain db req where step: "step = (db, req)"
    by (cases step)
  let ?st' = "after (handle db req st)"
  have run: "run st (step # rest) = run ?st' rest"
    by (simp add: step)
  show ?case
  proof (cases "current_db (run ?st' rest) = current_db ?st'")
    case True
    with Cons.prems run have "?st' \<noteq> st"
      by auto
    from handle_changes [OF this] True run step show ?thesis
      by (auto simp del: handle.simps)
  next
    case False
    from Cons.IH [OF False] run show ?thesis
      by (auto simp del: handle.simps)
  qed
qed

text \<open>
  Claim C6. The current database changes only in a connect that succeeds. A request that
  leaves the process in another state is a connect with a name, not empty once trimmed,
  that the collaborator accepted, and the new current database is that name. A connect
  the collaborator refuses answers 400 with the error and leaves the state as it was; one
  it accepts sets the current database to the trimmed name and answers
  \<^verbatim>\<open>{ok: true, current: name}\<close>. Over any run of requests the current database is the
  one the process started with or the name of a connect of the run that succeeded.
\<close>

theorem current_db_only_by_connect:
  "(after (handle db req st) \<noteq> st \<longrightarrow>
      (\<exists>body n u. req = PostConnect body \<and> json_field (ascii ''name'') body = Inr n \<and> n \<noteq> []
         \<and> connect_to db n = Inr u \<and> current_db (after (handle db req st)) = n))
   \<and> (field_value body (ascii ''name'') = Some (JStr s) \<and> strip s \<noteq> [] \<longrightarrow>
        (connect_to db (strip s) = Inl e \<longrightarrow>
           handle db (PostConnect body) st =
             \<lparr>reply = \<lparr>status = 400, content = Json (JObj [(ascii ''error'', JStr e)])\<rparr>,
              db_calls = [ConnectTo (strip s)], after = st\<rparr>)
      \<and> (connect_to db (strip s) = Inr u \<longrightarrow>
           handle db (PostConnect body) st =
             \<lparr>reply = \<lparr>status = 200, content = Json (JObj
                        [(ascii ''ok'', JBool True), (ascii ''current'', JStr (strip s))])\<rparr>,
              db_calls = [ConnectTo (strip s)], after = st\<lparr>current_db := strip s\<rparr>\<rparr>))
   \<and> (current_db (run st steps) \<noteq> current_db st \<longrightarrow>
        (\<exists>db' req' body' u'. (db', req') \<in> set steps \<and> req' = PostConnect body'
           \<and> json_field (ascii ''name'') body' = Inr (current_db (run st steps))
           \<and> connect_to db' (current_db (run st steps)) = Inr u'))"
proof (intro conjI impI)
  assume "after (handle db req st) \<noteq> st"
  then show "\<exists>body n u. req = PostConnect body \<and> json_field (ascii ''name'') body = Inr n \<and> n \<noteq> []
         \<and> connect_to db n = Inr u \<and> current_db (after (handle db req st)) = n"
    by (rule handle_changes)
next
  assume a: "field_value body (ascii ''name'') = Some (JStr s) \<and> strip s \<noteq> []"
    and c: "connect_to db (strip s) = Inl e"
  from a have jf: "json_field (ascii ''name'') body = Inr (strip s)" and ne: "strip s \<noteq> []"
    by (simp_all add: field_value_json_field)
  show "handle db (PostConnect body) st =
             \<lparr>reply = \<lparr>status = 400, content = Json (JObj [(ascii ''error'', JStr e)])\<rparr>,
              db_calls = [ConnectTo (strip s)], after = st\<rparr>"
    by (rule connect_failure [OF jf ne c])
next
  assume a: "field_value body (ascii ''name'') = Some (JStr s) \<and> strip s \<noteq> []"
    and c: "connect_to db (strip s) = Inr u"
  from a have jf: "json_field (ascii ''name'') body = Inr (strip s)" and ne: "strip s \<noteq> []"
    by (simp_all add: field_value_json_field)
  show "handle db (PostConnect body) st =
             \<lparr>reply = \<lparr>status = 200, content = Json (JObj
                        [(ascii ''ok'', JBool True), (ascii ''current'', JStr (strip s))])\<rparr>,
              db_calls = [ConnectTo (strip s)], after = st\<lparr>current_db := strip s\<rparr>\<rparr>"
    by (rule connect_success [OF jf ne c])
next
  assume "current_db (run st steps) \<noteq> current_db st"
  then show "\<exists>db' req' body' u'. (db', req') \<in> set steps \<and> req' = PostConnect body'
           \<and> json_field (ascii ''name'') body' = Inr (current_db (run st steps))
           \<and> connect_to db' (current_db (run st steps)) = Inr u'"
    by (rule run_current_db)
qed

text \<open>
  The witness: from the default database, a connect to \<^verbatim>\<open>" shop "\<close> succeeds and one to
  \<^verbatim>\<open>"nope"\<close> fails; a run with both, a listing and a health check ends in \<^verbatim>\<open>shop\<close>.
\<close>

theorem current_db_only_by_connect_witness:
  "field_value connect_shop (ascii ''name'') = Some (JStr (ascii '' shop ''))
   \<and> strip (ascii '' shop '') = ascii ''shop''
   \<and> connect_to sample_db (ascii ''shop'') = Inr ()
   \<and> handle sample_db (PostConnect connect_shop) (init_server None) =
        \<lparr>reply = \<lparr>status = 200, content = Json (JObj
                   [(ascii ''ok'', JBool True), (ascii ''current'', JStr (ascii ''shop''))])\<rparr>,
         db_calls = [ConnectTo (ascii ''shop'')],
         after = (init_server None)\<lparr>current_db := ascii ''shop''\<rparr>\<rparr>
   \<and> field_value connect_nope (ascii ''name'') = Some (JStr (ascii ''nope''))
   \<and> connect_to sample_db (ascii ''nope'') = Inl (ascii ''no such database'')
   \<and> handle sample_db (PostConnect connect_nope) (init_server None) =
        \<lparr>reply = \<lparr>status = 400, content = Json (JObj
                   [(ascii ''error'', JStr (ascii ''no such database''))])\<rparr>,
         db_calls = [ConnectTo (ascii ''nope'')], after = init_server None\<rparr>
   \<and> current_db (run (init_server None)
         [(sample_db, GetDatabases), (sample_db, PostConnect connect_nope),
          (sample_db, PostConnect connect_shop), (sample_db, GetHealthz)]) = ascii ''shop''
   \<and> after (handle sample_db (PostConnect connect_shop) (init_server None)) \<noteq> init_server None
   \<and> current_db (init_server None) \<noteq> ascii ''shop''"
proof -
  note shop = current_db_only_by_connect
    [of sample_db "PostConnect connect_shop" "init_server None" connect_shop "ascii '' shop ''"
        "ascii ''no such database''" "()" "[]"]
  note nope = current_db_only_by_connect
    [of sample_db "PostConnect connect_nope" "init_server None" connect_nope "ascii ''nope''"
        "ascii ''no such database''" "()" "[]"]
  from shop connect_shop_field connect_to_shop
  have 1: "handle sample_db (PostConnect connect_shop) (init_server None) =
        \<lparr>reply = \<lparr>status = 200, content = Json (JObj
                   [(ascii ''ok'', JBool True), (ascii ''current'', JStr (ascii ''shop''))])\<rparr>,
         db_calls = [ConnectTo (ascii ''shop'')],
         after = (init_server None)\<lparr>current_db := ascii ''shop''\<rparr>\<rparr>"
    by (simp add: strip_shop del: handle.simps)
  from nope connect_nope_field connect_to_nope
  have 2: "handle sample_db (PostConnect connect_nope) (init_server None) =
        \<lparr>reply = \<lparr>status = 400, content = Json (JObj
                   [(ascii ''error'', JStr (ascii ''no such database''))])\<rparr>,
         db_calls = [ConnectTo (ascii ''nope'')], after = init_server None\<rparr>"
    by (simp add: strip_nope del: handle.simps)
  have 3: "current_db (run (init_server None)
         [(sample_db, GetDatabases), (sample_db, PostConnect connect_nope),
          (sample_db, PostConnect connect_shop), (sample_db, GetHealthz)]) = ascii ''shop''"
    by (simp add: 1 2 api_list_databases_def healthz_def split_def del: handle.simps
          add: handle.simps(2,8))
  have 4: "current_db (init_server None) \<noteq> ascii ''shop''"
    by (simp add: init_server_def ascii_def)
  have "current_db (after (handle sample_db (PostConnect connect_shop) (init_server None)))
          = ascii ''shop''"
    by (simp only: 1 outcome.simps) simp
  with 4 have 5: "after (handle sample_db (PostConnect connect_shop) (init_server None))
                    \<noteq> init_server None"
    by (auto simp del: handle.simps)
  from 1 2 3 4 5 connect_shop_field connect_nope_field strip_shop connect_to_shop connect_to_nope
  show ?thesis
    by (intro conjI) simp_all
qed

section \<open>The health check and the status of a failure\<close>

lemma healthz_ok:
  "execute db (ascii ''SELECT 1'') = Inr u \<Longrightarrow>
     handle db GetHealthz st =
       \<lparr>reply = \<lparr>status = 200, content = Json (JObj
                  [(ascii ''ok'', JBool True), (ascii ''db'', JStr (current_db st))])\<rparr>,
        db_calls = [Execute (ascii ''SELECT 1'')], after = st\<rparr>"
  by (simp add: healthz_def)

lemma healthz_failure:
  "execute db (ascii ''SELECT 1'') = Inl e \<Longrightarrow>
     handle db GetHealthz st =
       \<lparr>reply = \<lparr>status = 500, content = Json (JObj
                  [(ascii ''ok'', JBool False), (ascii ''error'', JStr e)])\<rparr>,
        db_calls = [Execute (ascii ''SELECT 1'')], after = st\<rparr>"
  by (simp add: healthz_def)

lemma failure_status:
  assumes "c \<in> set (db_calls (handle db req st))" and "call_fails db c"
  shows "status (reply (handle db req st)) = (if req = GetHealthz then 500 else 400)"
proof (cases req)
  case GetIndex
  with assms show ?thesis by simp
next
  case GetDatabases
  with assms show ?thesis
    by (auto simp: api_list_databases_def split: sum.splits)
next
  case (PostDatabases body)
  with assms show ?thesis
    by (auto simp: api_create_database_def respond_def split: sum.splits if_splits)
next
  case (PostConnect body)
  with assms show ?thesis
    by (auto simp: api_connect_to_cases respond_def split: sum.splits if_splits)
next
  case (GetTableSchemas arg)
  with assms show ?thesis
    by (auto simp: api_table_schemas_def Let_def split: sum.splits)
next
  case (PostSql body)
  with assms show ?thesis
    by (auto simp: api_sql_def respond_def split: sum.splits prod.splits dest: exec_failure)
next
  case (PostSqlCsv body)
  with assms show ?thesis
    by (auto simp: api_sql_csv_def respond_def Let_def split: sum.splits prod.splits
          dest: exec_failure)
next
  case GetHealthz
  with assms show ?thesis
    by (auto simp: healthz_def split: sum.splits)
qed

text \<open>
  Claim C7. The health check answers \<^verbatim>\<open>{ok: true, db: current}\<close> with status 200 when
  the probe statement succeeds and \<^verbatim>\<open>{ok: false, error: message}\<close> with status 500 when
  it fails. Whenever a call on the collaborator fails while a request is handled, the
  status is 500 for the health check and 400 for every other request.
\<close>

theorem healthz_status:
  "(execute db (ascii ''SELECT 1'') = Inr u \<longrightarrow>
      handle db GetHealthz st =
        \<lparr>reply = \<lparr>status = 200, content = Json (JObj
                   [(ascii ''ok'', JBool True), (ascii ''db'', JStr (current_db st))])\<rparr>,
         db_calls = [Execute (ascii ''SELECT 1'')], after = st\<rparr>)
   \<and> (execute db (ascii ''SELECT 1'') = Inl e \<longrightarrow>
      handle db GetHealthz st =
        \<lparr>reply = \<lparr>status = 500, content = Json (JObj
                   [(ascii ''ok'', JBool False), (ascii ''error'', JStr e)])\<rparr>,
         db_calls = [Execute (ascii ''SELECT 1'')], after = st\<rparr>)
   \<and> ((\<exists>c\<in>set (db_calls (handle db req st)). call_fails db c) \<longrightarrow>
        status (reply (handle db req st)) = (if req = GetHealthz then 500 else 400))"
proof (intro conjI impI)
  assume "execute db (ascii ''SELECT 1'') = Inr u"
  then show "handle db GetHealthz st =
        \<lparr>reply = \<lparr>status = 200, content = Json (JObj
                   [(ascii ''ok'', JBool True), (ascii ''db'', JStr (current_db st))])\<rparr>,
         db_calls = [Execute (ascii ''SELECT 1'')], after = st\<rparr>"
    by (rule healthz_ok)
next
  assume "execute db (ascii ''SELECT 1'') = Inl e"
  then show "handle db GetHealthz st =
        \<lparr>reply = \<lparr>status = 500, content = Json (JObj
                   [(ascii ''ok'', JBool False), (ascii ''error'', JStr e)])\<rparr>,
         db_calls = [Execute (ascii ''SELECT 1'')], after = st\<rparr>"
    by (rule healthz_failure)
next
  assume "\<exists>c\<in>set (db_calls (handle db req st)). call_fails db c"
  then obtain c where "c \<in> set (db_calls (handle db req st))" and "call_fails db c"
    by blast
  then show "status (reply (handle db req st)) = (if req = GetHealthz then 500 else 400)"
    by (rule failure_status)
qed

text \<open>
  The witness: the health check on the working and on the broken collaborator, and the
  listing of databases on the broken one.
\<close>

theorem healthz_status_witness:
  "execute sample_db (ascii ''SELECT 1'') = Inr ()
   \<and> handle sample_db GetHealthz (init_server None) =
        \<lparr>reply = \<lparr>status = 200, content = Json (JObj
                   [(ascii ''ok'', JBool True), (ascii ''db'', JStr (ascii ''postgres''))])\<rparr>,
         db_calls = [Execute (ascii ''SELECT 1'')], after = init_server None\<rparr>
   \<and> execute broken_db (ascii ''SELECT 1'') = Inl (ascii ''connection refused'')
   \<and> handle broken_db GetHealthz (init_server None) =
        \<lparr>reply = \<lparr>status = 500, content = Json (JObj
                   [(ascii ''ok'', JBool False), (ascii ''error'', JStr (ascii ''connection refused''))])\<rparr>,
         db_calls = [Execute (ascii ''SELECT 1'')], after = init_server None\<rparr>
   \<and> ListDatabases \<in> set (db_calls (handle broken_db GetDatabases (init_server None)))
   \<and> call_fails broken_db ListDatabases
   \<and> status (reply (handle broken_db GetDatabases (init_server None))) = 400"
proof -
  have cur: "current_db (init_server None) = ascii ''postgres''"
    by (simp add: init_server_def)
  from healthz_status [of sample_db "()" "init_server None" "ascii ''connection refused''" GetHealthz]
    sample_execute cur
  have 1: "handle sample_db GetHealthz (init_server None) =
        \<lparr>reply = \<lparr>status = 200, content = Json (JObj
                   [(ascii ''ok'', JBool True), (ascii ''db'', JStr (ascii ''postgres''))])\<rparr>,
         db_calls = [Execute (ascii ''SELECT 1'')], after = init_server None\<rparr>"
    by (simp del: handle.simps)
  note broken = healthz_status
    [of broken_db "()" "init_server None" "ascii ''connection refused''" GetDatabases]
  from broken have c2: "execute broken_db (ascii ''SELECT 1'') = Inl (ascii ''connection refused'') \<longrightarrow>
      handle broken_db GetHealthz (init_server None) =
        \<lparr>reply = \<lparr>status = 500, content = Json (JObj
                   [(ascii ''ok'', JBool False), (ascii ''error'', JStr (ascii ''connection refused''))])\<rparr>,
         db_calls = [Execute (ascii ''SELECT 1'')], after = init_server None\<rparr>"
    by (rule conjunct1 [OF conjunct2])
  from broken have c3: "(\<exists>c\<in>set (db_calls (handle broken_db GetDatabases (init_server None))).
         call_fails broken_db c) \<longrightarrow>
        status (reply (handle broken_db GetDatabases (init_server None)))
          = (if GetDatabases = GetHealthz then 500 else 400)"
    by (rule conjunct2 [OF conjunct2])
  have ex: "\<exists>c\<in>set (db_calls (handle broken_db GetDatabases (init_server None))).
         call_fails broken_db c"
    using broken_list_fails by blast
  note 2 = mp [OF c2 broken_execute]
  from mp [OF c3 ex] have 3: "status (reply (handle broken_db GetDatabases (init_server None))) = 400"
    by (simp del: handle.simps)
  from 1 2 3 sample_execute broken_execute broken_list_fails show ?thesis
    by (intro conjI) simp_all
qed

section \<open>The table schemas, sorted\<close>

text \<open>
  The order \<open>sorted\<close> and \<open>sort_key\<close> use on strings is Python's: the first character
  that differs decides, and a string comes before every string it begins.
\<close>

lemma ustring_le:
  fixes c d :: nat and s t :: ustring
  shows "[] \<le> t" and "\<not> c # s \<le> []" and "c # s \<le> d # t \<longleftrightarrow> c < d \<or> c = d \<and> s \<le> t"
  by simp_all

lemma dict_set_fresh: "k \<notin> fst ` set d \<Longrightarrow> dict_set k v d = d @ [(k, v)]"
  by (induction d) auto

lemma dict_fold_distinct:
  "distinct (map fst (acc @ items)) \<Longrightarrow>
     foldl (\<lambda>d (k, v). dict_set k v d) acc items = acc @ items"
proof (induction items arbitrary: acc)
  case Nil
  then show ?case by simp
next
  case (Cons item items)
  obtain k v where item: "item = (k, v)"
    by (cases item)
  from Cons.prems have fresh: "k \<notin> fst ` set acc"
    by (auto simp: item)
  from Cons.prems have "distinct (map fst ((acc @ [(k, v)]) @ items))"
    by (simp add: item)
  then have "foldl (\<lambda>d (k, v). dict_set k v d) (acc @ [(k, v)]) items = (acc @ [(k, v)]) @ items"
    by (rule Cons.IH)
  with fresh show ?case
    by (simp add: item dict_set_fresh)
qed

lemma dict_of_distinct: "distinct (map fst items) \<Longrightarrow> dict_of items = items"
  using dict_fold_distinct [of "[]" items] by (simp add: dict_of_def)

lemma sort_key_permuted:
  assumes "mset m' = mset m" and "distinct (map fst m)"
  shows "sort_key fst m' = sort_key fst m"
proof -
  from assms(2) have i: "inj_on fst (set m)"
    by (simp add: distinct_map)
  have p: "mset m = mset (sort_key fst m')"
    by (simp add: assms(1))
  have s: "sorted (map fst (sort_key fst m'))"
    by simp
  from sort_key_inj_key_eq [OF p i s] show ?thesis
    by simp
qed

lemma sorted_items:
  assumes "distinct (map fst m)"
  shows "sorted (map fst (sort_key fst m))"
    and "distinct (map fst (sort_key fst m))"
    and "set (map fst (sort_key fst m)) = fst ` set m"
    and "map_of (sort_key fst m) = map_of m"
proof -
  show "sorted (map fst (sort_key fst m))"
    by simp
  have "mset (map fst (sort_key fst m)) = mset (map fst m)"
    by simp
  with assms show d: "distinct (map fst (sort_key fst m))"
    by (metis mset_eq_imp_distinct_iff)
  show "set (map fst (sort_key fst m)) = fst ` set m"
    by simp
  from d assms show "map_of (sort_key fst m) = map_of m"
    by (simp add: map_of_inject_set)
qed

lemma ddl_items_keys: "map fst (map (\<lambda>(name, ddl). (name, JStr ddl)) items) = map fst items"
  by (induction items) auto

lemma ddl_items_lookup:
  "map_of (map (\<lambda>(name, ddl). (name, JStr ddl)) items) n = map_option JStr (map_of items n)"
  by (induction items) auto

lemma api_table_schemas_ok:
  assumes "list_table_schemas db (case arg of None \<Rightarrow> ascii ''public'' | Some v \<Rightarrow> v) = Inr mapping"
    and "distinct (map fst mapping)"
  shows "handle db (GetTableSchemas arg) st =
     \<lparr>reply = \<lparr>status = 200, content = Json (JObj
        [(ascii ''schema'', JStr (case arg of None \<Rightarrow> ascii ''public'' | Some v \<Rightarrow> v)),
         (ascii ''tables'', JArr (map JStr (map fst (sort_key fst mapping)))),
         (ascii ''ddl'', JObj (map (\<lambda>(name, ddl). (name, JStr ddl)) (sort_key fst mapping)))])\<rparr>,
      db_calls = [ListTableSchemas (case arg of None \<Rightarrow> ascii ''public'' | Some v \<Rightarrow> v)],
      after = st\<rparr>"
proof -
  from sorted_items(2) [OF assms(2)]
  have "distinct (map fst (map (\<lambda>(name, ddl). (name, JStr ddl)) (sort_key fst mapping)))"
    by (simp only: ddl_items_keys)
  then have "dict_of (map (\<lambda>(name, ddl). (name, JStr ddl)) (sort_key fst mapping))
               = map (\<lambda>(name, ddl). (name, JStr ddl)) (sort_key fst mapping)"
    by (rule dict_of_distinct)
  with assms(1) show ?thesis
    by (simp add: api_table_schemas_def Let_def split_def comp_def)
qed

text \<open>
  Claim C5. For a mapping the collaborator returns (a dict: its keys are distinct), the
  answer of /api/table-schemas lists exactly the mapping's table names, in ascending
  order of Python's string comparison, \<^verbatim>\<open>ddl\<close> has exactly these keys, and gives each the
  DDL text the mapping gives it. The order of the mapping's items does not matter: a
  mapping with the same items in another order gives the same answer.
\<close>

theorem table_schemas_sorted:
  assumes "list_table_schemas db (case arg of None \<Rightarrow> ascii ''public'' | Some v \<Rightarrow> v) = Inr mapping"
    and "distinct (map fst mapping)"
  shows "\<exists>names ddl.
      reply (handle db (GetTableSchemas arg) st) =
        \<lparr>status = 200, content = Json (JObj
          [(ascii ''schema'', JStr (case arg of None \<Rightarrow> ascii ''public'' | Some v \<Rightarrow> v)),
           (ascii ''tables'', JArr (map JStr names)),
           (ascii ''ddl'', JObj ddl)])\<rparr>
    \<and> sorted names \<and> distinct names \<and> set names = fst ` set mapping
    \<and> map fst ddl = names
    \<and> (\<forall>n\<in>set names. map_of ddl n = map_option JStr (map_of mapping n))
    \<and> (\<forall>db' mapping'.
         list_table_schemas db' (case arg of None \<Rightarrow> ascii ''public'' | Some v \<Rightarrow> v) = Inr mapping'
         \<and> mset mapping' = mset mapping \<longrightarrow>
         reply (handle db' (GetTableSchemas arg) st) = reply (handle db (GetTableSchemas arg) st))"
proof -
  let ?items = "sort_key fst mapping"
  let ?names = "map fst ?items"
  let ?ddl = "map (\<lambda>(name, ddl). (name, JStr ddl)) ?items"
  note ok = api_table_schemas_ok [OF assms]
  have 1: "reply (handle db (GetTableSchemas arg) st) =
        \<lparr>status = 200, content = Json (JObj
          [(ascii ''schema'', JStr (case arg of None \<Rightarrow> ascii ''public'' | Some v \<Rightarrow> v)),
           (ascii ''tables'', JArr (map JStr ?names)),
           (ascii ''ddl'', JObj ?ddl)])\<rparr>"
    by (simp only: ok outcome.simps)
  have 2: "sorted ?names" "distinct ?names" "set ?names = fst ` set mapping"
    using sorted_items [OF assms(2)] by simp_all
  have 3: "map fst ?ddl = ?names"
    by (rule ddl_items_keys)
  have 4: "\<forall>n\<in>set ?names. map_of ?ddl n = map_option JStr (map_of mapping n)"
    by (simp only: ddl_items_lookup sorted_items(4) [OF assms(2)]) simp
  have 5: "reply (handle db' (GetTableSchemas arg) st) = reply (handle db (GetTableSchemas arg) st)"
    if "list_table_schemas db' (case arg of None \<Rightarrow> ascii ''public'' | Some v \<Rightarrow> v) = Inr mapping'
         \<and> mset mapping' = mset mapping" for db' mapping'
  proof -
    from that have p: "mset mapping' = mset mapping"
      and l: "list_table_schemas db' (case arg of None \<Rightarrow> ascii ''public'' | Some v \<Rightarrow> v) = Inr mapping'"
      by simp_all
    from p assms(2) have d: "distinct (map fst mapping')"
      by (metis mset_eq_imp_distinct_iff mset_map)
    have s: "sort_key fst mapping' = sort_key fst mapping"
      by (rule sort_key_permuted [OF p assms(2)])
    show ?thesis
      by (simp only: ok api_table_schemas_ok [OF l d] s)
  qed
  from 1 2 3 4 5 show ?thesis
    by blast
qed

text \<open>The witness: \<^verbatim>\<open>users\<close> before \<^verbatim>\<open>items\<close> in the mapping, after it in the answer.\<close>

theorem table_schemas_sorted_witness:
  "list_table_schemas sample_db (case None of None \<Rightarrow> ascii ''public'' | Some v \<Rightarrow> v) = Inr sample_tables
   \<and> distinct (map fst sample_tables)
   \<and> (\<exists>names ddl.
      reply (handle sample_db (GetTableSchemas None) (init_server None)) =
        \<lparr>status = 200, content = Json (JObj
          [(ascii ''schema'', JStr (case None of None \<Rightarrow> ascii ''public'' | Some v \<Rightarrow> v)),
           (ascii ''tables'', JArr (map JStr names)),
           (ascii ''ddl'', JObj ddl)])\<rparr>
    \<and> sorted names \<and> distinct names \<and> set names = fst ` set sample_tables
    \<and> map fst ddl = names
    \<and> (\<forall>n\<in>set names. map_of ddl n = map_option JStr (map_of sample_tables n))
    \<and> (\<forall>db' mapping'.
         list_table_schemas db' (case None of None \<Rightarrow> ascii ''public'' | Some v \<Rightarrow> v) = Inr mapping'
         \<and> mset mapping' = mset sample_tables \<longrightarrow>
         reply (handle db' (GetTableSchemas None) (init_server None))
           = reply (handle sample_db (GetTableSchemas None) (init_server None))))
   \<and> reply (handle sample_db (GetTableSchemas None) (init_server None)) =
        \<lparr>status = 200, content = Json (JObj
          [(ascii ''schema'', JStr (ascii ''public'')),
           (ascii ''tables'', JArr [JStr (ascii ''items''), JStr (ascii ''users'')]),
           (ascii ''ddl'', JObj [(ascii ''items'', JStr (ascii ''CREATE TABLE items ();'')),
                                 (ascii ''users'', JStr (ascii ''CREATE TABLE users ();''))])])\<rparr>"
proof -
  have "reply (handle sample_db (GetTableSchemas None) (init_server None)) =
        \<lparr>status = 200, content = Json (JObj
          [(ascii ''schema'', JStr (ascii ''public'')),
           (ascii ''tables'', JArr [JStr (ascii ''items''), JStr (ascii ''users'')]),
           (ascii ''ddl'', JObj [(ascii ''items'', JStr (ascii ''CREATE TABLE items ();'')),
                                 (ascii ''users'', JStr (ascii ''CREATE TABLE users ();''))])])\<rparr>"
    by (simp add: api_table_schemas_def sample_db_def dict_of_def ascii_def Let_def)
  with table_schemas_sorted [OF sample_tables_listed sample_tables_distinct, of "init_server None"]
    sample_tables_listed sample_tables_distinct
  show ?thesis
    by (intro conjI)
qed

section \<open>The file of /api/sql/csv\<close>

text \<open>The writer produces the record the specification describes, whatever was written before.\<close>

lemma join_append_plain: "join_append (line, n) s False =
   (line @ (if n > 0 then [44] else []) @ csv_field s, n + 1)"
  by (simp add: join_append_def csv_field_def)

lemma commas_Cons: "commas (f # fs) = f @ concat (map (\<lambda>g. 44 # g) fs)"
  by (induction fs arbitrary: f) auto

lemma fold_fields_more:
  "0 < n \<Longrightarrow> foldl (\<lambda>st v. join_append st (field_text v) False) (line, n) row =
     (line @ concat (map (\<lambda>v. 44 # csv_field (field_text v)) row), n + length row)"
  by (induction row arbitrary: line n) (simp_all add: join_append_plain)

lemma fold_fields:
  "foldl (\<lambda>st v. join_append st (field_text v) False) ([], 0) row =
     (commas (map (\<lambda>v. csv_field (field_text v)) row), length row)"
proof (cases row)
  case Nil
  then show ?thesis by simp
next
  case (Cons v vs)
  then show ?thesis
    by (simp add: join_append_plain fold_fields_more commas_Cons comp_def)
qed

lemma csv_field_Nil_iff: "csv_field s = [] \<longleftrightarrow> s = []"
  by (auto simp: csv_field_def)

lemma commas_Nil_iff: "commas fs = [] \<longleftrightarrow> fs = [] \<or> fs = [[]]"
  by (induction fs rule: commas.induct) auto

lemma writerow_record: "writerow row sio = sio @ csv_record (map field_text row)"
proof -
  let ?fs = "map field_text row"
  have folded: "foldl (\<lambda>st v. join_append st (field_text v) False) ([], 0) row
                  = (commas (map csv_field ?fs), length row)"
    by (simp add: fold_fields comp_def)
  consider (single) "?fs = [[]]" | (none) "row = []" | (other) "commas (map csv_field ?fs) \<noteq> []"
    by (auto simp: commas_Nil_iff csv_field_Nil_iff map_eq_Cons_conv)
  then show ?thesis
  proof cases
    case single
    then obtain v where "row = [v]" "field_text v = []"
      by (cases row) auto
    then show ?thesis
      by (simp add: writerow_def join_append_def csv_record_def csv_field_def)
  next
    case none
    then show ?thesis
      by (simp add: writerow_def csv_record_def)
  next
    case other
    then have "?fs \<noteq> [[]]"
      by (auto simp: csv_field_def)
    with other show ?thesis
      unfolding writerow_def folded csv_record_def by simp
  qed
qed

lemma writerows_records:
  "writerows rows sio = sio @ concat (map (\<lambda>r. csv_record (map field_text r)) rows)"
  unfolding writerows_def
  by (induction rows arbitrary: sio) (simp_all add: writerow_record)

lemma written_document:
  "writerows rows (if cols \<noteq> [] then writerow (map PStr cols) [] else [])
     = csv_document cols (map (map field_text) rows)"
  by (simp add: writerows_records writerow_record csv_document_def comp_def)

text \<open>Reading a written document gives back its records, every field in full.\<close>

lemma read_quoted_body:
  "state r = InQuoted \<Longrightarrow> foldl read_char r (double_quotes s) = r\<lparr>pending := pending r @ s\<rparr>"
proof (induction s arbitrary: r)
  case Nil
  then show ?case by simp
next
  case (Cons c s)
  show ?case
  proof (cases "c = 34")
    case True
    with Cons.prems have "read_char (read_char r 34) 34 = r\<lparr>pending := pending r @ [34]\<rparr>"
      by (simp add: read_char_def)
    moreover from Cons.prems have "state (r\<lparr>pending := pending r @ [34]\<rparr>) = InQuoted"
      by simp
    ultimately show ?thesis
      using True Cons.IH [of "r\<lparr>pending := pending r @ [34]\<rparr>"] by simp
  next
    case False
    with Cons.prems have "read_char r c = r\<lparr>pending := pending r @ [c]\<rparr>"
      by (simp add: read_char_def)
    moreover from Cons.prems have "state (r\<lparr>pending := pending r @ [c]\<rparr>) = InQuoted"
      by simp
    ultimately show ?thesis
      using False Cons.IH [of "r\<lparr>pending := pending r @ [c]\<rparr>"] by simp
  qed
qed

lemma read_plain_body:
  "state r = InField \<Longrightarrow> \<not> list_ex needs_quote s \<Longrightarrow>
     foldl read_char r s = r\<lparr>pending := pending r @ s\<rparr>"
proof (induction s arbitrary: r)
  case Nil
  then show ?case by simp
next
  case (Cons c s)
  from Cons.prems have "read_char r c = r\<lparr>pending := pending r @ [c]\<rparr>"
    by (simp add: read_char_def needs_quote_def)
  moreover from Cons.prems have "state (r\<lparr>pending := pending r @ [c]\<rparr>) = InField"
    by simp
  ultimately show ?case
    using Cons.prems Cons.IH [of "r\<lparr>pending := pending r @ [c]\<rparr>"] by simp
qed

lemma read_field:
  assumes "state r = StartRecord \<or> state r = StartField" and "pending r = []"
  shows "foldl read_char r (csv_field s) =
           (if s = [] then r
            else r\<lparr>pending := s, state := (if list_ex needs_quote s then QuoteInQuoted else InField)\<rparr>)"
proof (cases "list_ex needs_quote s")
  case True
  then have ne: "s \<noteq> []"
    by auto
  from assms have 1: "read_char r 34 = r\<lparr>state := InQuoted\<rparr>"
    by (auto simp: read_char_def start_record_def start_field_def)
  have 2: "foldl read_char (r\<lparr>state := InQuoted\<rparr>) (double_quotes s) = r\<lparr>state := InQuoted, pending := s\<rparr>"
    using read_quoted_body [of "r\<lparr>state := InQuoted\<rparr>" s] assms(2) by simp
  have 3: "read_char (r\<lparr>state := InQuoted, pending := s\<rparr>) 34 = r\<lparr>pending := s, state := QuoteInQuoted\<rparr>"
    by (simp add: read_char_def)
  from True ne show ?thesis
    by (simp add: csv_field_def 1 2 3)
next
  case False
  show ?thesis
  proof (cases s)
    case Nil
    then show ?thesis
      by (simp add: csv_field_def)
  next
    case (Cons c cs)
    with False have c: "c \<noteq> 34" "c \<noteq> 44" "c \<noteq> 13" "c \<noteq> 10" and cs: "\<not> list_ex needs_quote cs"
      by (auto simp: needs_quote_def)
    from assms c have 1: "read_char r c = r\<lparr>pending := [c], state := InField\<rparr>"
      by (auto simp: read_char_def start_record_def start_field_def)
    have 2: "foldl read_char (r\<lparr>pending := [c], state := InField\<rparr>) cs = r\<lparr>pending := c # cs, state := InField\<rparr>"
      using read_plain_body [of "r\<lparr>pending := [c], state := InField\<rparr>" cs] cs by simp
    from False Cons show ?thesis
      by (simp add: csv_field_def 1 2)
  qed
qed

lemma read_field_then:
  assumes "state r = StartField" and "pending r = []" and "c = 44 \<or> c = 13"
  shows "foldl read_char r (csv_field s @ [c]) =
           r\<lparr>fields_read := fields_read r @ [s], state := (if c = 44 then StartField else EatCRNL)\<rparr>"
proof -
  have "foldl read_char r (csv_field s @ [c]) = read_char (foldl read_char r (csv_field s)) c"
    by simp
  also have "\<dots> = r\<lparr>fields_read := fields_read r @ [s], state := (if c = 44 then StartField else EatCRNL)\<rparr>"
    using assms
    by (auto simp: read_field read_char_def end_field_def finish_field_def start_field_def)
  finally show ?thesis .
qed

lemma read_first_field_then:
  assumes "state r = StartRecord" and "pending r = []" and "c = 44 \<or> c = 13 \<and> s \<noteq> []"
  shows "foldl read_char r (csv_field s @ [c]) =
           r\<lparr>fields_read := fields_read r @ [s], state := (if c = 44 then StartField else EatCRNL)\<rparr>"
proof -
  have "foldl read_char r (csv_field s @ [c]) = read_char (foldl read_char r (csv_field s)) c"
    by simp
  also have "\<dots> = r\<lparr>fields_read := fields_read r @ [s], state := (if c = 44 then StartField else EatCRNL)\<rparr>"
    using assms
    by (auto simp: read_field read_char_def end_field_def finish_field_def start_field_def
          start_record_def)
  finally show ?thesis .
qed

lemma read_more_fields:
  assumes "state r = StartField" and "pending r = []"
  shows "foldl read_char r (commas (map csv_field (f # fs)) @ [13]) =
           r\<lparr>fields_read := fields_read r @ f # fs, state := EatCRNL\<rparr>"
  using assms
proof (induction fs arbitrary: f r)
  case Nil
  then show ?case
    using read_field_then [of r 13 f] by simp
next
  case (Cons g fs)
  let ?r = "r\<lparr>fields_read := fields_read r @ [f], state := StartField\<rparr>"
  have "foldl read_char r (commas (map csv_field (f # g # fs)) @ [13])
          = foldl read_char (foldl read_char r (csv_field f @ [44])) (commas (map csv_field (g # fs)) @ [13])"
    by simp
  also have "foldl read_char r (csv_field f @ [44]) = ?r"
    using read_field_then [of r 44 f] Cons.prems by simp
  also have "foldl read_char ?r (commas (map csv_field (g # fs)) @ [13])
               = ?r\<lparr>fields_read := fields_read ?r @ g # fs, state := EatCRNL\<rparr>"
    using Cons.prems by (intro Cons.IH) simp_all
  finally show ?case
    by simp
qed

lemma read_record_fields:
  assumes "state r = StartRecord" and "pending r = []" and "f # fs \<noteq> [[]]"
  shows "foldl read_char r (commas (map csv_field (f # fs)) @ [13]) =
           r\<lparr>fields_read := fields_read r @ f # fs, state := EatCRNL\<rparr>"
proof (cases fs)
  case Nil
  with assms show ?thesis
    using read_first_field_then [of r 13 f] by simp
next
  case (Cons g gs)
  let ?r = "r\<lparr>fields_read := fields_read r @ [f], state := StartField\<rparr>"
  have "foldl read_char r (commas (map csv_field (f # g # gs)) @ [13])
          = foldl read_char (foldl read_char r (csv_field f @ [44])) (commas (map csv_field (g # gs)) @ [13])"
    by simp
  also have "foldl read_char r (csv_field f @ [44]) = ?r"
    using read_first_field_then [of r 44 f] assms by simp
  also have "foldl read_char ?r (commas (map csv_field (g # gs)) @ [13])
               = ?r\<lparr>fields_read := fields_read ?r @ g # gs, state := EatCRNL\<rparr>"
    using assms by (intro read_more_fields) simp_all
  finally show ?thesis
    by (simp add: Cons)
qed

lemma read_record:
  assumes "state r = StartRecord" and "pending r = []" and "fields_read r = []"
  shows "foldl read_char r (csv_record fs) = r\<lparr>records_read := records_read r @ [fs]\<rparr>"
proof -
  consider (none) "fs = []" | (single) "fs = [[]]" | (other) f gs where "fs = f # gs" "fs \<noteq> [[]]"
    by (cases fs) auto
  then show ?thesis
  proof cases
    case none
    with assms show ?thesis
      by (simp add: csv_record_def read_char_def start_record_def emit_def)
  next
    case single
    with assms show ?thesis
      by (simp add: csv_record_def read_char_def start_record_def start_field_def emit_def
            end_field_def finish_field_def)
  next
    case other
    have "foldl read_char r (csv_record fs)
            = read_char (foldl read_char r (commas (map csv_field (f # gs)) @ [13])) 10"
      using other by (auto simp: csv_record_def)
    also have "foldl read_char r (commas (map csv_field (f # gs)) @ [13])
                 = r\<lparr>fields_read := fields_read r @ f # gs, state := EatCRNL\<rparr>"
      using assms other by (intro read_record_fields) simp_all
    also have "read_char (r\<lparr>fields_read := fields_read r @ f # gs, state := EatCRNL\<rparr>) 10 = r\<lparr>records_read := records_read r @ [fs]\<rparr>"
      using assms other by (simp add: read_char_def emit_def)
    finally show ?thesis .
  qed
qed

lemma read_records:
  assumes "state r = StartRecord" and "pending r = []" and "fields_read r = []"
  shows "foldl read_char r (concat (map csv_record records)) = r\<lparr>records_read := records_read r @ records\<rparr>"
  using assms
proof (induction records arbitrary: r)
  case Nil
  then show ?case by simp
next
  case (Cons fs records)
  have "foldl read_char r (concat (map csv_record (fs # records)))
          = foldl read_char (foldl read_char r (csv_record fs)) (concat (map csv_record records))"
    by simp
  also have "foldl read_char r (csv_record fs) = r\<lparr>records_read := records_read r @ [fs]\<rparr>"
    using Cons.prems by (rule read_record)
  also have "foldl read_char (r\<lparr>records_read := records_read r @ [fs]\<rparr>) (concat (map csv_record records))
               = (r\<lparr>records_read := records_read r @ [fs]\<rparr>)\<lparr>records_read := records_read (r\<lparr>records_read := records_read r @ [fs]\<rparr>) @ records\<rparr>"
    using Cons.prems by (intro Cons.IH) simp_all
  finally show ?case
    by simp
qed

lemma csv_read_records: "csv_read (concat (map csv_record records)) = records"
  by (simp add: csv_read_def read_records)

lemma csv_read_document:
  "csv_read (csv_document header records) = (if header = [] then [] else [header]) @ records"
proof -
  have "csv_document header records
          = concat (map csv_record ((if header = [] then [] else [header]) @ records))"
    by (simp add: csv_document_def)
  then show ?thesis
    by (simp only: csv_read_records)
qed

lemma api_sql_csv_Inr:
  assumes "api_sql_csv db body = (cs, Inr resp)"
  shows "\<exists>q cols rows rc d bytes.
           json_field (ascii ''query'') body = Inr q \<and>
           exec db q = (cs, Inr (cols, rows, rc, d)) \<and>
           encode_utf8 (writerows rows (if cols \<noteq> [] then writerow (map PStr cols) [] else [])) = Inr bytes \<and>
           resp = \<lparr>status = 200, content = SendFile
                    \<lparr>data = bytes, mimetype = ascii ''text/csv'', as_attachment = True,
                     download_name = ascii ''query_results.csv''\<rparr>\<rparr>"
proof (cases "json_field (ascii ''query'') body")
  case (Inl e)
  with assms show ?thesis
    by (simp add: api_sql_csv_def)
next
  case (Inr q)
  obtain cs' r where ex: "exec db q = (cs', r)"
    by (cases "exec db q")
  show ?thesis
  proof (cases r)
    case (Inl e)
    with assms Inr ex show ?thesis
      by (simp add: api_sql_csv_def)
  next
    case res: (Inr res)
    obtain cols rows rc d where t: "res = (cols, rows, rc, d)"
      by (cases res)
    let ?text = "writerows rows (if cols \<noteq> [] then writerow (map PStr cols) [] else [])"
    show ?thesis
    proof (cases "encode_utf8 ?text")
      case (Inl e)
      with assms \<open>json_field (ascii ''query'') body = Inr q\<close> ex res t show ?thesis
        by (simp add: api_sql_csv_def Let_def split del: if_split)
    next
      case bytes: (Inr bytes)
      with assms \<open>json_field (ascii ''query'') body = Inr q\<close> ex res t
      have "cs' = cs" and "resp = \<lparr>status = 200, content = SendFile
                    \<lparr>data = bytes, mimetype = ascii ''text/csv'', as_attachment = True,
                     download_name = ascii ''query_results.csv''\<rparr>\<rparr>"
        by (simp_all add: api_sql_csv_def Let_def split del: if_split)
      with \<open>json_field (ascii ''query'') body = Inr q\<close> ex res t bytes show ?thesis
        by blast
    qed
  qed
qed

text \<open>
  Claim C2. When /api/sql/csv succeeds, the file sent is the UTF-8 encoding of the CSV
  document of the result: the header record if and only if there are columns, then one
  record per row, each field the cell's whole string (empty for \<^verbatim>\<open>None\<close>, else \<^verbatim>\<open>str\<close>),
  quoted where it holds a comma, a quote or a newline character. Nothing is cut: a CSV
  reader gets back the header and every cell's string in full. The file is an attachment
  named \<^verbatim>\<open>query_results.csv\<close> of type \<^verbatim>\<open>text/csv\<close>. A result without columns has no rows.
\<close>

theorem api_sql_csv_document:
  assumes "api_sql_csv db body = (cs, Inr resp)"
  shows "\<exists>q cols rows rc d bytes.
           json_field (ascii ''query'') body = Inr q \<and>
           exec db q = (cs, Inr (cols, rows, rc, d)) \<and>
           encode_utf8 (csv_document cols (map (map field_text) rows)) = Inr bytes \<and>
           resp = \<lparr>status = 200, content = SendFile
                    \<lparr>data = bytes, mimetype = ascii ''text/csv'', as_attachment = True,
                     download_name = ascii ''query_results.csv''\<rparr>\<rparr> \<and>
           csv_read (csv_document cols (map (map field_text) rows))
             = (if cols = [] then [] else [cols]) @ map (map field_text) rows \<and>
           (\<forall>r\<in>set rows. \<forall>c\<in>set r. field_text c = (if c = PNone then [] else py_str c)) \<and>
           (cols = [] \<longrightarrow> rows = [])"
proof -
  from api_sql_csv_Inr [OF assms] obtain q cols rows rc d bytes where
    q: "json_field (ascii ''query'') body = Inr q" and
    e: "exec db q = (cs, Inr (cols, rows, rc, d))" and
    u: "encode_utf8 (writerows rows (if cols \<noteq> [] then writerow (map PStr cols) [] else [])) = Inr bytes" and
    r: "resp = \<lparr>status = 200, content = SendFile
                    \<lparr>data = bytes, mimetype = ascii ''text/csv'', as_attachment = True,
                     download_name = ascii ''query_results.csv''\<rparr>\<rparr>"
    by blast
  from u have u': "encode_utf8 (csv_document cols (map (map field_text) rows)) = Inr bytes"
    by (simp only: written_document)
  have t: "field_text c = (if c = PNone then [] else py_str c)" for c
    by (cases c) simp_all
  have "json_field (ascii ''query'') body = Inr q \<and>
           exec db q = (cs, Inr (cols, rows, rc, d)) \<and>
           encode_utf8 (csv_document cols (map (map field_text) rows)) = Inr bytes \<and>
           resp = \<lparr>status = 200, content = SendFile
                    \<lparr>data = bytes, mimetype = ascii ''text/csv'', as_attachment = True,
                     download_name = ascii ''query_results.csv''\<rparr>\<rparr> \<and>
           csv_read (csv_document cols (map (map field_text) rows))
             = (if cols = [] then [] else [cols]) @ map (map field_text) rows \<and>
           (\<forall>r\<in>set rows. \<forall>c\<in>set r. field_text c = (if c = PNone then [] else py_str c)) \<and>
           (cols = [] \<longrightarrow> rows = [])"
    using q e u' r t exec_no_columns [OF e] by (simp only: csv_read_document) simp
  then show ?thesis
    by (intro exI)
qed

text \<open>The witness: one column and one row.\<close>

theorem api_sql_csv_document_witness:
  "api_sql_csv sample_db padded_select = ([CursorExecute (ascii ''SELECT 1'')], Inr select_one_csv)
   \<and> (\<exists>q cols rows rc d bytes.
           json_field (ascii ''query'') padded_select = Inr q \<and>
           exec sample_db q = ([CursorExecute (ascii ''SELECT 1'')], Inr (cols, rows, rc, d)) \<and>
           encode_utf8 (csv_document cols (map (map field_text) rows)) = Inr bytes \<and>
           select_one_csv = \<lparr>status = 200, content = SendFile
                    \<lparr>data = bytes, mimetype = ascii ''text/csv'', as_attachment = True,
                     download_name = ascii ''query_results.csv''\<rparr>\<rparr> \<and>
           csv_read (csv_document cols (map (map field_text) rows))
             = (if cols = [] then [] else [cols]) @ map (map field_text) rows \<and>
           (\<forall>r\<in>set rows. \<forall>c\<in>set r. field_text c = (if c = PNone then [] else py_str c)) \<and>
           (cols = [] \<longrightarrow> rows = []))"
proof (rule conjI)
  show "api_sql_csv sample_db padded_select = ([CursorExecute (ascii ''SELECT 1'')], Inr select_one_csv)"
    by (rule api_sql_csv_select_one)
  show "\<exists>q cols rows rc d bytes.
           json_field (ascii ''query'') padded_select = Inr q \<and>
           exec sample_db q = ([CursorExecute (ascii ''SELECT 1'')], Inr (cols, rows, rc, d)) \<and>
           encode_utf8 (csv_document cols (map (map field_text) rows)) = Inr bytes \<and>
           select_one_csv = \<lparr>status = 200, content = SendFile
                    \<lparr>data = bytes, mimetype = ascii ''text/csv'', as_attachment = True,
                     download_name = ascii ''query_results.csv''\<rparr>\<rparr> \<and>
           csv_read (csv_document cols (map (map field_text) rows))
             = (if cols = [] then [] else [cols]) @ map (map field_text) rows \<and>
           (\<forall>r\<in>set rows. \<forall>c\<in>set r. field_text c = (if c = PNone then [] else py_str c)) \<and>
           (cols = [] \<longrightarrow> rows = [])"
    by (rule api_sql_csv_document [OF api_sql_csv_select_one])
qed

end
